theory Spec2Isabelle
  imports Complex_Main
begin

section \<open>Go integer arithmetic\<close>

text \<open>
  Go's integer division truncates towards zero, whereas \<open>div\<close> on \<open>int\<close> rounds
  towards minus infinity.  The two agree on non-negative operands.
\<close>

definition go_quot :: "int \<Rightarrow> int \<Rightarrow> int" where
  "go_quot a b = sgn a * sgn b * (\<bar>a\<bar> div \<bar>b\<bar>)"

section \<open>The progress store (package downloader, state file)\<close>

record Part =
  Index :: int
  Start :: int
  End :: int
  Downloaded :: int
  Done :: bool

record Progress =
  URL :: string
  Filename :: string
  TotalSize :: int
  Parts :: "Part list"
  NumThreads :: int

datatype panic = DivideByZero | MakeSliceLenOutOfRange

text \<open>
  The body of the loop of \<open>CreateNewProgress\<close> for loop index \<open>i\<close>.
\<close>

definition newPart :: "int \<Rightarrow> int \<Rightarrow> int \<Rightarrow> int \<Rightarrow> Part" where
  "newPart totalSize numThreads partSize i =
     (let start = i * partSize;
          end0 = start + partSize - 1;
          end1 = (if i = numThreads - 1 then totalSize - 1 else end0)
      in \<lparr>Index = i, Start = start, End = end1, Downloaded = 0, Done = False\<rparr>)"

text \<open>
  \<open>CreateNewProgress\<close>.  The division panics for \<open>numThreads = 0\<close> and \<open>make\<close>
  panics for a negative length.  For \<open>numThreads > 0\<close> and \<open>totalSize \<ge> 0\<close> every
  intermediate value lies between \<open>-1\<close> and \<open>totalSize\<close>, so the 64-bit arithmetic of the
  source does not wrap and unbounded integers compute the same ranges.
\<close>

definition CreateNewProgress :: "string \<Rightarrow> string \<Rightarrow> int \<Rightarrow> int \<Rightarrow> panic + Progress" where
  "CreateNewProgress url filename totalSize numThreads =
     (if numThreads = 0 then Inl DivideByZero
      else if numThreads < 0 then Inl MakeSliceLenOutOfRange
      else
        let partSize = go_quot totalSize numThreads;
            parts = map (\<lambda>i. newPart totalSize numThreads partSize (int i)) [0..<nat numThreads]
        in Inr \<lparr>URL = url, Filename = filename, TotalSize = totalSize,
                Parts = parts, NumThreads = numThreads\<rparr>)"

text \<open>\<open>IsComplete\<close>: every part is done.\<close>

fun IsComplete_parts :: "Part list \<Rightarrow> bool" where
  "IsComplete_parts [] = True"
| "IsComplete_parts (part # rest) = (if \<not> Done part then False else IsComplete_parts rest)"

definition IsComplete :: "Progress \<Rightarrow> bool" where
  "IsComplete p = IsComplete_parts (Parts p)"


section \<open>Time\<close>

text \<open>
  A \<open>time.Time\<close> is modelled by its wall-clock instant, in nanoseconds since
  January 1, year 1, 00:00:00 UTC, which makes the zero value \<open>time.Time{}\<close> the number 0.
  A \<open>time.Duration\<close> is a signed 64-bit count of nanoseconds; \<open>Time.Sub\<close> saturates at
  the largest and smallest representable duration.
\<close>

type_synonym Time = int
type_synonym Duration = int

definition zeroTime :: Time where
  "zeroTime = 0"

definition maxDuration :: Duration where
  "maxDuration = 2 ^ 63 - 1"

definition minDuration :: Duration where
  "minDuration = - (2 ^ 63)"

definition time_Sub :: "Time \<Rightarrow> Time \<Rightarrow> Duration" where
  "time_Sub t u =
     (let d = t - u
      in if d > maxDuration then maxDuration
         else if d < minDuration then minDuration
         else d)"

text \<open>\<open>time.Since(t)\<close> is \<open>time.Now().Sub(t)\<close>; the current instant is a parameter.\<close>

definition time_Since :: "Time \<Rightarrow> Time \<Rightarrow> Duration" where
  "time_Since now t = time_Sub now t"

definition Second :: Duration where
  "Second = 1000000000"

definition Minute :: Duration where
  "Minute = 60 * Second"

section \<open>The job queue (queue.go)\<close>

definition DownloadJobsQueue :: string where
  "DownloadJobsQueue = ''download_jobs''"

definition ProcessingJobsQueue :: string where
  "ProcessingJobsQueue = ''processing_jobs''"

definition CompletedJobsQueue :: string where
  "CompletedJobsQueue = ''completed_jobs''"

definition FailedJobsQueue :: string where
  "FailedJobsQueue = ''failed_jobs''"

definition JobProcessingTimeout :: Duration where
  "JobProcessingTimeout = 30 * Minute"

text \<open>
  The two structs of queue.go.  Both have fields \<open>ID\<close>, \<open>CreatedAt\<close>, \<open>StartedAt\<close>
  and \<open>WorkerID\<close>, so the fields carry the prefix \<open>job_\<close> or \<open>st_\<close>.
\<close>

record DownloadJob =
  job_ID :: string
  job_URL :: string
  job_OutputPath :: string
  job_Threads :: int
  job_CreatedAt :: Time
  job_StartedAt :: Time
  job_WorkerID :: string

record JobStatus =
  st_ID :: string
  st_Status :: string
  st_Progress :: real
  st_BytesDownloaded :: int
  st_TotalBytes :: int
  st_ErrorMessage :: string
  st_CreatedAt :: Time
  st_StartedAt :: Time
  st_CompletedAt :: Time
  st_WorkerID :: string

subsection \<open>Serialised data\<close>

text \<open>
  The store holds byte strings.  A list element is either the JSON document of a
  \<open>DownloadJob\<close> or some other bytes that \<open>json.Unmarshal\<close> rejects; a status entry is
  either the JSON document of a \<open>JobStatus\<close> or other bytes.  For these structs (strings,
  integers, finite floats, RFC 3339 timestamps with nanoseconds) \<open>json.Marshal\<close> does not
  fail and \<open>json.Unmarshal\<close> gives the marshalled value back, and two documents are the
  same bytes exactly when they were marshalled from equal values.
\<close>

datatype job_data = JobJSON DownloadJob | JobGarbage string

datatype status_data = StatusJSON JobStatus | StatusGarbage string

definition json_Marshal_job :: "DownloadJob \<Rightarrow> job_data" where
  "json_Marshal_job job = JobJSON job"

fun json_Unmarshal_job :: "job_data \<Rightarrow> DownloadJob option" where
  "json_Unmarshal_job (JobJSON job) = Some job"
| "json_Unmarshal_job (JobGarbage _) = None"

definition json_Marshal_status :: "JobStatus \<Rightarrow> status_data" where
  "json_Marshal_status status = StatusJSON status"

fun json_Unmarshal_status :: "status_data \<Rightarrow> JobStatus option" where
  "json_Unmarshal_status (StatusJSON status) = Some status"
| "json_Unmarshal_status (StatusGarbage _) = None"

subsection \<open>The Redis commands the queue uses\<close>

text \<open>
  The store: the lists by key (a key that was never pushed to is the empty list), the
  string entries by key, and whether the server answers at all.  The head of a Redis
  list is the head of the HOL list.  An unreachable server makes every command return
  an error and change nothing.  Expiry of the status entries (30 days) is not modelled.
\<close>

record Redis =
  reachable :: bool
  lists :: "string \<Rightarrow> job_data list"
  kv :: "string \<Rightarrow> status_data option"

datatype redis_err = redis_Nil | redis_Error

definition LPush :: "Redis \<Rightarrow> string \<Rightarrow> job_data \<Rightarrow> redis_err + Redis" where
  "LPush r key v =
     (if \<not> reachable r then Inl redis_Error
      else Inr (r\<lparr>lists := (lists r)(key := v # lists r key)\<rparr>))"

text \<open>
  \<open>BRPOPLPUSH src dst\<close>: pop the tail of \<open>src\<close> and push it on the head of \<open>dst\<close> in
  one step.  On an empty source the command waits for the poll timeout and answers
  nil; the wait itself is not modelled.
\<close>

definition BRPopLPush :: "Redis \<Rightarrow> string \<Rightarrow> string \<Rightarrow> redis_err + (job_data \<times> Redis)" where
  "BRPopLPush r src dst =
     (if \<not> reachable r then Inl redis_Error
      else if lists r src = [] then Inl redis_Nil
      else
        let v = last (lists r src);
            l1 = (lists r)(src := butlast (lists r src));
            l2 = l1(dst := v # l1 dst)
        in Inr (v, r\<lparr>lists := l2\<rparr>))"

text \<open>\<open>LRANGE key 0 -1\<close>: the whole list, head first.\<close>

definition LRange :: "Redis \<Rightarrow> string \<Rightarrow> redis_err + job_data list" where
  "LRange r key = (if \<not> reachable r then Inl redis_Error else Inr (lists r key))"

text \<open>\<open>LREM key 1 v\<close>: remove the first element equal to \<open>v\<close>, counting from the head.\<close>

definition LRem :: "Redis \<Rightarrow> string \<Rightarrow> job_data \<Rightarrow> redis_err + Redis" where
  "LRem r key v =
     (if \<not> reachable r then Inl redis_Error
      else Inr (r\<lparr>lists := (lists r)(key := remove1 v (lists r key))\<rparr>))"

definition LLen :: "Redis \<Rightarrow> string \<Rightarrow> redis_err + int" where
  "LLen r key = (if \<not> reachable r then Inl redis_Error else Inr (int (length (lists r key))))"

definition Get :: "Redis \<Rightarrow> string \<Rightarrow> redis_err + status_data" where
  "Get r key =
     (if \<not> reachable r then Inl redis_Error
      else case kv r key of None \<Rightarrow> Inl redis_Nil | Some v \<Rightarrow> Inr v)"

definition Set_key :: "Redis \<Rightarrow> string \<Rightarrow> status_data \<Rightarrow> redis_err + Redis" where
  "Set_key r key v =
     (if \<not> reachable r then Inl redis_Error
      else Inr (r\<lparr>kv := (kv r)(key \<mapsto> v)\<rparr>))"

subsection \<open>The operations of the queue manager\<close>

datatype error =
    FailedToEnqueueJob
  | FailedToDequeueJob
  | FailedToUnmarshalJob
  | FailedToSetCompletedStatus
  | FailedToSetFailedStatus
  | FailedToGetCurrentStatus
  | FailedToUnmarshalStatus
  | FailedToSetJobStatus
  | JobNotFound
  | FailedToGetJobStatus
  | FailedToGetCount string
  | FailedToGetProcessingJobs
  | FailedToRemoveFromProcessingQueue
  | JobNotFoundInProcessingQueue

text \<open>\<open>fmt.Sprintf("job_status:%s", id)\<close>.\<close>

definition statusKey :: "string \<Rightarrow> string" where
  "statusKey jobID = ''job_status:'' @ jobID"

text \<open>
  A \<open>JobStatus\<close> literal of the source names some fields; the others take Go's zero
  value.  \<open>emptyStatus\<close> is the literal with no field named.
\<close>

definition emptyStatus :: JobStatus where
  "emptyStatus =
     \<lparr>st_ID = [], st_Status = [], st_Progress = 0, st_BytesDownloaded = 0,
      st_TotalBytes = 0, st_ErrorMessage = [], st_CreatedAt = zeroTime,
      st_StartedAt = zeroTime, st_CompletedAt = zeroTime, st_WorkerID = []\<rparr>"

text \<open>
  Every operation takes the store and returns it, with the error (\<open>None\<close> is Go's
  \<open>nil\<close>).  Log lines are left out.
\<close>

definition SetJobStatus :: "Redis \<Rightarrow> JobStatus \<Rightarrow> error option \<times> Redis" where
  "SetJobStatus r status =
     (let key = statusKey (st_ID status);
          statusData = json_Marshal_status status
      in case Set_key r key statusData of
           Inl _ \<Rightarrow> (Some FailedToSetJobStatus, r)
         | Inr r' \<Rightarrow> (None, r'))"

text \<open>
  \<open>EnqueueJob\<close> stamps \<open>CreatedAt\<close> on the caller's job, which is returned as the third
  component.  A failure to write the initial status is only logged.
\<close>

definition EnqueueJob :: "Redis \<Rightarrow> Time \<Rightarrow> DownloadJob \<Rightarrow> error option \<times> Redis \<times> DownloadJob" where
  "EnqueueJob r now job0 =
     (let job = job0\<lparr>job_CreatedAt := now\<rparr>;
          jobData = json_Marshal_job job
      in case LPush r DownloadJobsQueue jobData of
           Inl _ \<Rightarrow> (Some FailedToEnqueueJob, r, job)
         | Inr r1 \<Rightarrow>
             let status = emptyStatus\<lparr>st_ID := job_ID job, st_Status := ''queued'',
                                      st_CreatedAt := job_CreatedAt job\<rparr>
             in (None, snd (SetJobStatus r1 status), job))"

text \<open>
  \<open>DequeueJob\<close> returns \<open>(job, err)\<close>.  The element moved to the processing list is the
  document as it was enqueued; \<open>StartedAt\<close> and \<open>WorkerID\<close> are set on the unmarshalled
  copy that is handed to the worker, and in the status entry.
\<close>

definition DequeueJob ::
    "Redis \<Rightarrow> Time \<Rightarrow> string \<Rightarrow> (DownloadJob option \<times> error option) \<times> Redis" where
  "DequeueJob r now workerID =
     (case BRPopLPush r DownloadJobsQueue ProcessingJobsQueue of
        Inl redis_Nil \<Rightarrow> ((None, None), r)
      | Inl redis_Error \<Rightarrow> ((None, Some FailedToDequeueJob), r)
      | Inr (result, r1) \<Rightarrow>
          (case json_Unmarshal_job result of
             None \<Rightarrow>
               ((None, Some FailedToUnmarshalJob),
                (case LPush r1 FailedJobsQueue result of Inl _ \<Rightarrow> r1 | Inr r2 \<Rightarrow> r2))
           | Some job0 \<Rightarrow>
               let job = job0\<lparr>job_StartedAt := now, job_WorkerID := workerID\<rparr>;
                   status = emptyStatus\<lparr>st_ID := job_ID job, st_Status := ''processing'',
                                            st_CreatedAt := job_CreatedAt job,
                                            st_StartedAt := job_StartedAt job,
                                            st_WorkerID := workerID\<rparr>
               in ((Some job, None), snd (SetJobStatus r1 status))))"

text \<open>
  The loop of \<open>removeFromProcessingQueue\<close> over the elements read by \<open>LRANGE\<close>.
\<close>

fun removeLoop :: "Redis \<Rightarrow> string \<Rightarrow> job_data list \<Rightarrow> error option \<times> Redis" where
  "removeLoop r jobID [] = (Some JobNotFoundInProcessingQueue, r)"
| "removeLoop r jobID (jobData # rest) =
     (case json_Unmarshal_job jobData of
        None \<Rightarrow> removeLoop r jobID rest
      | Some job \<Rightarrow>
          if job_ID job = jobID then
            (case LRem r ProcessingJobsQueue jobData of
               Inl _ \<Rightarrow> (Some FailedToRemoveFromProcessingQueue, r)
             | Inr r' \<Rightarrow> (None, r'))
          else removeLoop r jobID rest)"

definition removeFromProcessingQueue :: "Redis \<Rightarrow> string \<Rightarrow> error option \<times> Redis" where
  "removeFromProcessingQueue r jobID =
     (case LRange r ProcessingJobsQueue of
        Inl _ \<Rightarrow> (Some FailedToGetProcessingJobs, r)
      | Inr jobs \<Rightarrow> removeLoop r jobID jobs)"

text \<open>
  \<open>CompleteJob\<close> and \<open>FailJob\<close>: a failure to remove the job from the processing list
  is only logged; the status entry is then written from a fresh literal.
\<close>

definition CompleteJob :: "Redis \<Rightarrow> Time \<Rightarrow> string \<Rightarrow> string \<Rightarrow> error option \<times> Redis" where
  "CompleteJob r now jobID workerID =
     (let r1 = snd (removeFromProcessingQueue r jobID);
          status = emptyStatus\<lparr>st_ID := jobID, st_Status := ''completed'',
                                   st_CompletedAt := now, st_WorkerID := workerID,
                                   st_Progress := 100\<rparr>
      in case SetJobStatus r1 status of
           (Some _, r2) \<Rightarrow> (Some FailedToSetCompletedStatus, r2)
         | (None, r2) \<Rightarrow> (None, r2))"

definition FailJob ::
    "Redis \<Rightarrow> Time \<Rightarrow> string \<Rightarrow> string \<Rightarrow> string \<Rightarrow> error option \<times> Redis" where
  "FailJob r now jobID workerID errorMsg =
     (let r1 = snd (removeFromProcessingQueue r jobID);
          status = emptyStatus\<lparr>st_ID := jobID, st_Status := ''failed'',
                                   st_CompletedAt := now, st_WorkerID := workerID,
                                   st_ErrorMessage := errorMsg\<rparr>
      in case SetJobStatus r1 status of
           (Some _, r2) \<Rightarrow> (Some FailedToSetFailedStatus, r2)
         | (None, r2) \<Rightarrow> (None, r2))"

definition UpdateJobProgress ::
    "Redis \<Rightarrow> string \<Rightarrow> real \<Rightarrow> int \<Rightarrow> int \<Rightarrow> error option \<times> Redis" where
  "UpdateJobProgress r jobID progress bytesDownloaded totalBytes =
     (case Get r (statusKey jobID) of
        Inl redis_Error \<Rightarrow> (Some FailedToGetCurrentStatus, r)
      | Inl redis_Nil \<Rightarrow>
          SetJobStatus r
            ((emptyStatus\<lparr>st_ID := jobID, st_Status := ''processing''\<rparr>)
               \<lparr>st_Progress := progress, st_BytesDownloaded := bytesDownloaded,
                st_TotalBytes := totalBytes\<rparr>)
      | Inr statusData \<Rightarrow>
          (case json_Unmarshal_status statusData of
             None \<Rightarrow> (Some FailedToUnmarshalStatus, r)
           | Some status \<Rightarrow>
               SetJobStatus r
                 (status\<lparr>st_Progress := progress, st_BytesDownloaded := bytesDownloaded,
                         st_TotalBytes := totalBytes\<rparr>)))"

definition GetJobStatus :: "Redis \<Rightarrow> string \<Rightarrow> error + JobStatus" where
  "GetJobStatus r jobID =
     (case Get r (statusKey jobID) of
        Inl redis_Nil \<Rightarrow> Inl JobNotFound
      | Inl redis_Error \<Rightarrow> Inl FailedToGetJobStatus
      | Inr statusData \<Rightarrow>
          (case json_Unmarshal_status statusData of
             None \<Rightarrow> Inl FailedToUnmarshalStatus
           | Some status \<Rightarrow> Inr status))"

text \<open>
  \<open>GetQueueStats\<close> returns a map with the five keys \<open>queued\<close>, \<open>processing\<close>,
  \<open>completed\<close>, \<open>failed\<close> and \<open>total\<close>.
\<close>

definition GetQueueStats :: "Redis \<Rightarrow> error + (string \<Rightarrow> int option)" where
  "GetQueueStats r =
     (case LLen r DownloadJobsQueue of
        Inl _ \<Rightarrow> Inl (FailedToGetCount ''queued'')
      | Inr queuedJobs \<Rightarrow>
     (case LLen r ProcessingJobsQueue of
        Inl _ \<Rightarrow> Inl (FailedToGetCount ''processing'')
      | Inr processingJobs \<Rightarrow>
     (case LLen r CompletedJobsQueue of
        Inl _ \<Rightarrow> Inl (FailedToGetCount ''completed'')
      | Inr completedJobs \<Rightarrow>
     (case LLen r FailedJobsQueue of
        Inl _ \<Rightarrow> Inl (FailedToGetCount ''failed'')
      | Inr failedJobs \<Rightarrow>
          Inr (Map.empty(''queued'' \<mapsto> queuedJobs, ''processing'' \<mapsto> processingJobs,
                 ''completed'' \<mapsto> completedJobs, ''failed'' \<mapsto> failedJobs,
                 ''total'' \<mapsto> queuedJobs + processingJobs + completedJobs + failedJobs))))))"

text \<open>
  The loop of \<open>CleanupStaleJobs\<close> over the elements read by \<open>LRANGE\<close>, acting on the
  live store.  The source reads the clock in each iteration; a sweep lasts microseconds
  against a threshold of 30 minutes, so one value of \<open>time.Now()\<close> serves all
  iterations.  The count of requeued jobs, which the source only logs, is returned with
  the store.
\<close>

fun cleanupLoop :: "Redis \<Rightarrow> Time \<Rightarrow> nat \<Rightarrow> job_data list \<Rightarrow> nat \<times> Redis" where
  "cleanupLoop r now staleCount [] = (staleCount, r)"
| "cleanupLoop r now staleCount (jobData # rest) =
     (case json_Unmarshal_job jobData of
        None \<Rightarrow> cleanupLoop r now staleCount rest
      | Some job0 \<Rightarrow>
          if time_Since now (job_StartedAt job0) > JobProcessingTimeout then
            (case LRem r ProcessingJobsQueue jobData of
               Inl _ \<Rightarrow> cleanupLoop r now staleCount rest
             | Inr r1 \<Rightarrow>
                 let job = job0\<lparr>job_StartedAt := zeroTime, job_WorkerID := []\<rparr>;
                     jobDataReset = json_Marshal_job job
                 in (case LPush r1 DownloadJobsQueue jobDataReset of
                       Inl _ \<Rightarrow> cleanupLoop r1 now staleCount rest
                     | Inr r2 \<Rightarrow>
                         let status = emptyStatus\<lparr>st_ID := job_ID job, st_Status := ''queued'',
                                                  st_CreatedAt := job_CreatedAt job\<rparr>;
                             r3 = snd (SetJobStatus r2 status)
                         in cleanupLoop r3 now (Suc staleCount) rest))
          else cleanupLoop r now staleCount rest)"

definition CleanupStaleJobs :: "Redis \<Rightarrow> Time \<Rightarrow> error option \<times> Redis" where
  "CleanupStaleJobs r now =
     (case LRange r ProcessingJobsQueue of
        Inl _ \<Rightarrow> (Some FailedToGetProcessingJobs, r)
      | Inr jobs \<Rightarrow> (None, snd (cleanupLoop r now 0 jobs)))"

text \<open>
  Every status entry is written by \<open>SetJobStatus\<close> under the key of its own id.  The
  store is well-keyed when each status document sits under the key of the id it holds.
\<close>

definition well_keyed :: "Redis \<Rightarrow> bool" where
  "well_keyed r = (\<forall>key status. kv r key = Some (StatusJSON status) \<longrightarrow> key = statusKey (st_ID status))"

subsection \<open>Example data\<close>

text \<open>
  An empty, reachable store; a job as the intake handler builds it; an instant in the
  year 2025; and a store in which that job is being processed at 50 percent.
\<close>

definition emptyRedis :: Redis where
  "emptyRedis = \<lparr>reachable = True, lists = (\<lambda>_. []), kv = Map.empty\<rparr>"

definition job1 :: DownloadJob where
  "job1 = \<lparr>job_ID = ''j1'', job_URL = ''http://test/10MB'', job_OutputPath = ''a.bin'',
            job_Threads = 4, job_CreatedAt = zeroTime, job_StartedAt = zeroTime,
            job_WorkerID = []\<rparr>"

definition T0 :: Time where
  "T0 = 63900000000000000000"

definition status1 :: JobStatus where
  "status1 = \<lparr>st_ID = ''j1'', st_Status = ''processing'', st_Progress = 50,
     st_BytesDownloaded = 500, st_TotalBytes = 1000, st_ErrorMessage = [],
     st_CreatedAt = T0, st_StartedAt = T0 + Second, st_CompletedAt = zeroTime,
     st_WorkerID = ''w1''\<rparr>"

definition redis1 :: Redis where
  "redis1 = \<lparr>reachable = True,
     lists = (\<lambda>_. [])(ProcessingJobsQueue := [JobJSON (job1\<lparr>job_CreatedAt := T0\<rparr>)]),
     kv = [statusKey ''j1'' \<mapsto> StatusJSON status1]\<rparr>"

section \<open>Job intake (server_queue.go)\<close>

record QueuedDownloadRequest =
  req_URL :: string
  req_Output :: string
  req_Threads :: int

record QueuedDownloadResponse =
  resp_JobID :: string
  resp_Message :: string
  resp_Status :: string

text \<open>
  What the handler sends: an error object with a status code, or 201 Created with a
  \<open>QueuedDownloadResponse\<close>.
\<close>

datatype reply = ErrorReply int string | CreatedReply QueuedDownloadResponse

text \<open>
  \<open>ShouldBindJSON\<close> of gin decodes the body into the struct and then checks the
  \<open>binding:"required"\<close> tags, which reject a field left at its zero value.  A body that
  is not a JSON object for the struct is \<open>None\<close>; a field absent from the JSON is at
  its zero value.
\<close>

definition ShouldBindJSON :: "QueuedDownloadRequest option \<Rightarrow> QueuedDownloadRequest option" where
  "ShouldBindJSON body =
     (case body of
        None \<Rightarrow> None
      | Some req \<Rightarrow> if req_URL req = [] \<or> req_Output req = [] then None else Some req)"

text \<open>
  \<open>enqueueDownloadHandler\<close>; the identifier drawn by \<open>uuid.New()\<close> and the current time
  are parameters.
\<close>

definition enqueueDownloadHandler ::
    "Redis \<Rightarrow> Time \<Rightarrow> string \<Rightarrow> QueuedDownloadRequest option \<Rightarrow> reply \<times> Redis" where
  "enqueueDownloadHandler r now jobID body =
     (case ShouldBindJSON body of
        None \<Rightarrow> (ErrorReply 400 ''Invalid request body'', r)
      | Some req0 \<Rightarrow>
          let req = (if req_Threads req0 \<le> 0 then req0\<lparr>req_Threads := 4\<rparr> else req0)
          in if req_Threads req > 16 then (ErrorReply 400 ''Maximum 16 threads allowed'', r)
             else
               let job = \<lparr>job_ID = jobID, job_URL = req_URL req, job_OutputPath = req_Output req,
                          job_Threads = req_Threads req, job_CreatedAt = zeroTime,
                          job_StartedAt = zeroTime, job_WorkerID = []\<rparr>
               in (case EnqueueJob r now job of
                     (Some _, r', _) \<Rightarrow> (ErrorReply 500 ''Failed to enqueue download job'', r')
                   | (None, r', _) \<Rightarrow>
                       (CreatedReply \<lparr>resp_JobID = jobID,
                                      resp_Message = ''Download job enqueued successfully'',
                                      resp_Status = ''queued''\<rparr>, r')))"

section \<open>The download engine (downloader.go)\<close>

subsection \<open>Files\<close>

text \<open>
  The file system as far as the engine uses it: the regular files by path, each with
  its bytes.  \<open>os.Stat\<close> fails on a path that has no file and otherwise gives the size;
  \<open>os.Remove\<close> deletes the file, and its error is ignored by the caller.
\<close>

type_synonym FS = "string \<Rightarrow> string option"

definition os_Stat :: "FS \<Rightarrow> string \<Rightarrow> int option" where
  "os_Stat fs path = (case fs path of None \<Rightarrow> None | Some bytes \<Rightarrow> Some (int (length bytes)))"

definition os_Remove :: "FS \<Rightarrow> string \<Rightarrow> FS" where
  "os_Remove fs path = fs(path := None)"

record Downloader =
  d_URL :: string
  d_Filename :: string
  d_NumThreads :: int
  d_ProgressFile :: string
  d_Progress :: "Progress option"

subsection \<open>Verification\<close>

datatype verify_error = FileSizeMismatch int int | DownloadIncomplete string

datatype verify_result = Verify_nil | Verify_error verify_error | Verify_nil_dereference

text \<open>
  \<open>VerifyDownload\<close>.  The result \<open>Verify_nil\<close> is Go's \<open>nil\<close> error, which the worker takes
  as success.  When all parts are done and \<open>os.Stat\<close> fails, no branch of the inner
  \<open>if\<close> is taken and control reaches the final \<open>return nil\<close>.
\<close>

definition VerifyDownload :: "FS \<Rightarrow> Downloader \<Rightarrow> verify_result \<times> FS" where
  "VerifyDownload fs d =
     (case d_Progress d of
        None \<Rightarrow> (Verify_nil_dereference, fs)
      | Some progress \<Rightarrow>
          if IsComplete progress then
            (case os_Stat fs (Filename progress) of
               Some stat_Size \<Rightarrow>
                 if stat_Size = TotalSize progress
                 then (Verify_nil, os_Remove fs (d_ProgressFile d))
                 else (Verify_error (FileSizeMismatch (TotalSize progress) stat_Size), fs)
             | None \<Rightarrow> (Verify_nil, fs))
          else (Verify_error (DownloadIncomplete (d_ProgressFile d)), fs))"

subsection \<open>The range probe\<close>

text \<open>
  The value of the \<open>Content-Range\<close> header as \<open>SupportsRange\<close> looks at it: absent or
  empty; a value from which \<open>Sscanf\<close> with the format \<open>bytes %d-%d/%d\<close> reads all three
  numbers; or any other text.
\<close>

datatype content_range = NoContentRange | ContentRange int int int | OtherContentRange string

record http_response =
  StatusCode :: int
  ContentLength :: int
  AcceptRanges :: string
  ContentRangeHeader :: content_range

text \<open>
  The origin as the probe meets it: the answer to each of the three requests the probe
  can make (\<open>None\<close> when the client returns an error instead of a response), and whether
  \<open>http.NewRequest\<close> accepts the URL.
\<close>

record origin =
  head_answer :: "http_response option"
  range_answer :: "http_response option"
  full_answer :: "http_response option"
  new_request_ok :: bool

datatype request = HEAD_request | GET_request "string option"

datatype probe_error =
    FailedToCreateGetRequest
  | FailedToMakeGetRequest
  | ServerReturnedStatus int
  | FailedToGetFileSize
  | NoContentLength

text \<open>The end of \<open>SupportsRange\<close>, common to both paths.\<close>

definition probe_result :: "bool \<Rightarrow> int \<Rightarrow> probe_error + bool \<times> int" where
  "probe_result supportsRanges len =
     (if len \<le> 0 then Inl NoContentLength else Inr (supportsRanges, len))"

text \<open>
  The step \<open>if length <= 0\<close> of the fallback path: an unranged GET whose length counts
  only when the status is 200.
\<close>

definition probe_full ::
    "origin \<Rightarrow> request list \<Rightarrow> bool \<Rightarrow> int \<Rightarrow> request list \<times> (probe_error + bool \<times> int)" where
  "probe_full og sent supportsRanges len =
     (if len \<le> 0 then
        (case full_answer og of
           None \<Rightarrow> (sent @ [GET_request None], Inl FailedToGetFileSize)
         | Some fullResp \<Rightarrow>
             (sent @ [GET_request None],
              probe_result supportsRanges
                (if StatusCode fullResp = 200 then ContentLength fullResp else len)))
      else (sent, probe_result supportsRanges len))"

text \<open>
  \<open>SupportsRange\<close>, returning the requests it sent, in order, with its result.  A ranged
  GET carries its \<open>Range\<close> header.
\<close>

definition SupportsRange :: "origin \<Rightarrow> request list \<times> (probe_error + bool \<times> int)" where
  "SupportsRange og =
     (case head_answer og of
        None \<Rightarrow>
          if \<not> new_request_ok og then ([HEAD_request], Inl FailedToCreateGetRequest)
          else
            (let sent = [HEAD_request, GET_request (Some ''bytes=0-1023'')]
             in case range_answer og of
                  None \<Rightarrow> (sent, Inl FailedToMakeGetRequest)
                | Some resp \<Rightarrow>
                    if StatusCode resp = 206 then
                      probe_full og sent True
                        (case ContentRangeHeader resp of
                           ContentRange first_byte last_byte total_bytes \<Rightarrow> total_bytes
                         | _ \<Rightarrow> 0)
                    else if StatusCode resp = 200 then
                      probe_full og sent False (ContentLength resp)
                    else (sent, Inl (ServerReturnedStatus (StatusCode resp))))
      | Some resp \<Rightarrow>
          if StatusCode resp \<noteq> 200 then ([HEAD_request], Inl (ServerReturnedStatus (StatusCode resp)))
          else ([HEAD_request],
                probe_result (AcceptRanges resp = ''bytes'') (ContentLength resp)))"

subsection \<open>Example data for the engine\<close>

text \<open>
  A three-byte download in one part that is done, with its progress file on disk and
  no output file; and an origin that answers HEAD with 405 Method Not Allowed but
  would serve a ranged GET.
\<close>

definition progress1 :: Progress where
  "progress1 = \<lparr>URL = ''http://test/abc'', Filename = ''a.bin'', TotalSize = 3,
     Parts = [\<lparr>Index = 0, Start = 0, End = 2, Downloaded = 3, Done = True\<rparr>],
     NumThreads = 1\<rparr>"

definition downloader1 :: Downloader where
  "downloader1 = \<lparr>d_URL = ''http://test/abc'', d_Filename = ''a.bin'', d_NumThreads = 1,
     d_ProgressFile = ''download_state.json'', d_Progress = Some progress1\<rparr>"

definition fs1 :: FS where
  "fs1 = [''download_state.json'' \<mapsto> ''{}'']"

definition origin405 :: origin where
  "origin405 = \<lparr>
     head_answer = Some \<lparr>StatusCode = 405, ContentLength = 0, AcceptRanges = [],
                         ContentRangeHeader = NoContentRange\<rparr>,
     range_answer = Some \<lparr>StatusCode = 206, ContentLength = 1024, AcceptRanges = ''bytes'',
                          ContentRangeHeader = ContentRange 0 1023 5000\<rparr>,
     full_answer = Some \<lparr>StatusCode = 200, ContentLength = 5000, AcceptRanges = ''bytes'',
                         ContentRangeHeader = NoContentRange\<rparr>,
     new_request_ok = True\<rparr>"

definition originNoHead :: origin where
  "originNoHead = origin405\<lparr>head_answer := None\<rparr>"

subsection \<open>The progress file\<close>

text \<open>
  \<open>os.WriteFile(name, data, perm)\<close> opens the file with \<open>O_WRONLY|O_CREATE|O_TRUNC\<close>,
  writes the data and closes the file.  The environment decides whether the open fails,
  the write stops with an error after some bytes, or the write completes.  The model
  returns the error with the successive states of the file system, the state before the
  call first and the state the call leaves last; any of them is what another process can
  read at that moment.
\<close>

datatype write_outcome = OpenFails | WriteStopsAfter nat | WriteCompletes

datatype save_error = WriteFileError

definition os_WriteFile ::
    "FS \<Rightarrow> write_outcome \<Rightarrow> string \<Rightarrow> string \<Rightarrow> save_error option \<times> FS list" where
  "os_WriteFile fs outcome name bytes =
     (case outcome of
        OpenFails \<Rightarrow> (Some WriteFileError, [fs])
      | WriteStopsAfter k \<Rightarrow>
          (Some WriteFileError, [fs, fs(name \<mapsto> []), fs(name \<mapsto> take k bytes)])
      | WriteCompletes \<Rightarrow> (None, [fs, fs(name \<mapsto> []), fs(name \<mapsto> bytes)]))"

text \<open>
  \<open>SaveProgress\<close>.  \<open>json.MarshalIndent\<close> is the parameter \<open>marshal\<close>, the function from
  a plan to its indented JSON text; it does not fail on this struct.
\<close>

definition SaveProgress ::
    "(Progress \<Rightarrow> string) \<Rightarrow> FS \<Rightarrow> write_outcome \<Rightarrow> string \<Rightarrow> Progress
       \<Rightarrow> save_error option \<times> FS list" where
  "SaveProgress marshal fs outcome filename progress =
     (let data = marshal progress
      in os_WriteFile fs outcome filename data)"

subsection \<open>The range fetcher\<close>

text \<open>
  \<open>downloadPart\<close> runs for as long as the origin and the disk make it, so it is
  modelled by its steps.  The goroutine is at the head of the outer loop, at the head
  of the inner copy loop, or has returned.
\<close>

datatype location = OuterLoop | CopyLoop | Returned

text \<open>
  What the environment does at a step.  At either loop head the \<open>select\<close> may find the
  context cancelled.  In the outer loop the request may fail (\<open>NewRequestWithContext\<close> or
  \<open>client.Do\<close> returns an error), or a response arrives with a status code, after which
  \<open>os.OpenFile\<close> and \<open>file.Seek\<close> succeed or not.  In the copy loop \<open>resp.Body.Read\<close>
  returns \<open>n\<close> bytes (at most the 32 KiB of the buffer) and an error or none, and
  \<open>file.Write\<close> returns the number of bytes written and whether it failed.
\<close>

datatype read_error = read_ok | io_EOF | read_failed

datatype event =
    ctx_Done
  | request_failed
  | response int bool bool
  | body_Read nat read_error nat bool

text \<open>
  The end of an outer iteration, after the copy loop is left by \<open>break\<close>.
\<close>

definition after_copy :: "Part \<Rightarrow> Part \<times> location" where
  "after_copy part =
     (if Done part \<or> Downloaded part \<ge> End part - Start part + 1
      then (part\<lparr>Done := True\<rparr>, Returned)
      else (part, OuterLoop))"

text \<open>
  One step.  An event that the current location does not ask for is skipped.  Every
  failure in the outer loop sleeps a second and continues with the next iteration.
\<close>

fun step :: "Part \<times> location \<Rightarrow> event \<Rightarrow> Part \<times> location" where
  "step (part, Returned) ev = (part, Returned)"
| "step (part, OuterLoop) ctx_Done = (part, Returned)"
| "step (part, OuterLoop) ev =
     (let currentStart = Start part + Downloaded part
      in if currentStart > End part then (part\<lparr>Done := True\<rparr>, Returned)
         else
           (case ev of
              response status opened sought \<Rightarrow>
                if status \<noteq> 206 \<and> status \<noteq> 200 then (part, OuterLoop)
                else if \<not> opened then (part, OuterLoop)
                else if \<not> sought then (part, OuterLoop)
                else (part, CopyLoop)
            | _ \<Rightarrow> (part, OuterLoop)))"
| "step (part, CopyLoop) ctx_Done = (part, Returned)"
| "step (part, CopyLoop) (body_Read n err written writeErr) =
     (if n > 0 \<and> writeErr then after_copy part
      else
        let part1 = (if n > 0 then part\<lparr>Downloaded := Downloaded part + int written\<rparr>
                     else part)
        in if err \<noteq> read_ok
           then after_copy (if err = io_EOF then part1\<lparr>Done := True\<rparr> else part1)
           else (part1, CopyLoop))"
| "step (part, CopyLoop) ev = (part, CopyLoop)"

fun run :: "Part \<times> location \<Rightarrow> event list \<Rightarrow> Part \<times> location" where
  "run s [] = s"
| "run s (ev # evs) = run (step s ev) evs"

text \<open>
  \<open>downloadPart\<close> after the environment has produced the given events: the function
  returns at once for a part that is done and enters the outer loop otherwise.
\<close>

definition enter :: "Part \<Rightarrow> Part \<times> location" where
  "enter part = (if Done part then (part, Returned) else (part, OuterLoop))"

definition downloadPart :: "Part \<Rightarrow> event list \<Rightarrow> Part \<times> location" where
  "downloadPart part evs = run (enter part) evs"

text \<open>
  A write fits when the bytes it adds to the counter end inside the part: the response
  body does not carry more than the range that was asked for.
\<close>

fun fits :: "Part \<times> location \<Rightarrow> event \<Rightarrow> bool" where
  "fits (part, CopyLoop) (body_Read n err written writeErr) =
     (0 < n \<and> \<not> writeErr \<longrightarrow> Start part + Downloaded part + int written \<le> End part + 1)"
| "fits s ev = True"

fun all_fit :: "Part \<times> location \<Rightarrow> event list \<Rightarrow> bool" where
  "all_fit s [] = True"
| "all_fit s (ev # evs) = (fits s ev \<and> all_fit (step s ev) evs)"

subsection \<open>Example data for the fetcher and the progress file\<close>

text \<open>
  The first of four parts of a 100-byte file; the events of a request answered 200 OK
  with the whole file in one read, and of one answered 206 with the 25 bytes asked for.
  A stand-in for \<open>json.MarshalIndent\<close> that gives every plan the same short document,
  and a file system that holds an older document.
\<close>

definition part0 :: Part where
  "part0 = \<lparr>Index = 0, Start = 0, End = 24, Downloaded = 0, Done = False\<rparr>"

definition whole_body_200 :: "event list" where
  "whole_body_200 = [response 200 True True, body_Read 100 read_ok 100 False]"

definition partial_body_206 :: "event list" where
  "partial_body_206 = [response 206 True True, body_Read 25 read_ok 25 False,
                       body_Read 0 io_EOF 0 False]"

definition marshal1 :: "Progress \<Rightarrow> string" where
  "marshal1 progress = ''{ url: http://test/abc, total_size: 3 }''"

definition fs2 :: FS where
  "fs2 = [''download_state.json'' \<mapsto> ''{ url: http://test/old }'']"

chapter \<open>Properties\<close>

section \<open>Segmentation of a download\<close>


lemma go_quot_nonneg: "0 \<le> a \<Longrightarrow> 0 < b \<Longrightarrow> go_quot a b = a div b"
  by (cases "a = 0") (simp_all add: go_quot_def)

lemma part_size_pos:
  assumes "1 \<le> n" "n \<le> (t::int)"
  shows "1 \<le> t div n"
proof -
  have "n div n \<le> t div n" using assms by (intro zdiv_mono1) auto
  with assms show ?thesis by simp
qed

lemma part_size_mult:
  assumes "1 \<le> n"
  shows "n * (t div n) \<le> (t::int)"
proof -
  have "t = n * (t div n) + t mod n" by simp
  moreover have "0 \<le> t mod n" using assms by simp
  ultimately show ?thesis by linarith
qed

lemma CreateNewProgress_parts:
  assumes "0 < n"
  shows "CreateNewProgress u f t n =
     Inr \<lparr>URL = u, Filename = f, TotalSize = t,
          Parts = map (\<lambda>i. newPart t n (go_quot t n) (int i)) [0..<nat n], NumThreads = n\<rparr>"
  using assms by (simp add: CreateNewProgress_def)

lemma newPart_Start: "Start (newPart t n s i) = i * s"
  by (simp add: newPart_def Let_def)

lemma newPart_End: "End (newPart t n s i) = (if i = n - 1 then t - 1 else i * s + s - 1)"
  by (simp add: newPart_def Let_def)

text \<open>The first \<open>k\<close> full-size parts cover exactly the bytes \<open>[0, k * s)\<close>.\<close>

lemma cover_prefix:
  assumes "1 \<le> (s::int)"
  shows "(\<Union>i<k. {int i * s .. int i * s + s - 1}) = {0 ..< int k * s}"
proof (induction k)
  case 0
  then show ?case by simp
next
  case (Suc k)
  have "(\<Union>i<Suc k. {int i * s .. int i * s + s - 1})
        = (\<Union>i<k. {int i * s .. int i * s + s - 1}) \<union> {int k * s .. int k * s + s - 1}"
    by (simp add: lessThan_Suc Un_commute)
  also have "\<dots> = {0 ..< int k * s} \<union> {int k * s .. int k * s + s - 1}"
    by (simp add: Suc.IH)
  also have "\<dots> = {0 ..< int (Suc k) * s}"
  proof -
    define m where "m = int k * s"
    have m: "0 \<le> m" using assms by (simp add: m_def)
    have "int (Suc k) * s = m + s" by (simp add: m_def algebra_simps)
    moreover have "{0 ..< m} \<union> {m .. m + s - 1} = {0 ..< m + s}"
      using m assms by auto
    ultimately show ?thesis by (simp add: m_def)
  qed
  finally show ?case .
qed

lemma cover_all:
  assumes "1 \<le> (s::int)" "int k * s + s \<le> t"
  shows "(\<Union>i<k. {int i * s .. int i * s + s - 1}) \<union> {int k * s .. t - 1} = {0 ..< t}"
proof -
  define m where "m = int k * s"
  have m: "0 \<le> m" "m + s \<le> t" using assms by (simp_all add: m_def)
  have "{0 ..< m} \<union> {m .. t - 1} = {0 ..< t}"
    using m assms(1) by auto
  then show ?thesis by (simp add: cover_prefix [OF assms(1)] m_def)
qed


text \<open>
  Claim C2.  For \<open>totalSize \<ge> 1\<close> and \<open>1 \<le> numThreads \<le> totalSize\<close>,
  \<open>CreateNewProgress\<close> returns exactly \<open>numThreads\<close> parts; part \<open>i\<close> starts at
  \<open>i * \<lfloor>totalSize / numThreads\<rfloor>\<close>; every part but the last has that length; the last
  part ends at \<open>totalSize - 1\<close>; consecutive parts are contiguous, no two parts overlap, and
  together they cover exactly \<open>[0, totalSize)\<close>.  For 103 bytes and 5 threads the ranges
  are [0..19], [20..39], [40..59], [60..79], [80..102].
\<close>

theorem CreateNewProgress_ranges:
  assumes t: "1 \<le> totalSize" and n1: "1 \<le> numThreads" and nt: "numThreads \<le> totalSize"
  shows "\<exists>p. CreateNewProgress url filename totalSize numThreads = Inr p
     \<and> length (Parts p) = nat numThreads
     \<and> (\<forall>i < nat numThreads. Start (Parts p ! i) = int i * (totalSize div numThreads))
     \<and> (\<forall>i < nat numThreads - 1.
            End (Parts p ! i) - Start (Parts p ! i) + 1 = totalSize div numThreads)
     \<and> End (last (Parts p)) = totalSize - 1
     \<and> (\<forall>i < nat numThreads - 1. Start (Parts p ! Suc i) = End (Parts p ! i) + 1)
     \<and> (\<forall>i < nat numThreads. Start (Parts p ! i) \<le> End (Parts p ! i))
     \<and> (\<forall>j < nat numThreads. \<forall>i < j. End (Parts p ! i) < Start (Parts p ! j))
     \<and> (\<Union>i < nat numThreads. {Start (Parts p ! i) .. End (Parts p ! i)}) = {0 ..< totalSize}
     \<and> map (\<lambda>q. (Start q, End q)) (Parts (projr (CreateNewProgress url filename 103 5)))
           = [(0, 19), (20, 39), (40, 59), (60, 79), (80, 102)]"
proof -
  define s where "s = totalSize div numThreads"
  define k where "k = nat numThreads - 1"
  define ps where "ps = map (\<lambda>i. newPart totalSize numThreads s (int i)) [0..<nat numThreads]"
  define p where "p = \<lparr>URL = url, Filename = filename, TotalSize = totalSize,
          Parts = ps, NumThreads = numThreads\<rparr>"
  have q: "go_quot totalSize numThreads = s"
    using t n1 by (simp add: go_quot_nonneg s_def)
  have p: "CreateNewProgress url filename totalSize numThreads = Inr p"
    using n1 by (simp add: CreateNewProgress_parts q p_def ps_def)
  have Parts: "Parts p = ps" by (simp add: p_def)
  have n: "nat numThreads = Suc k" "numThreads = int k + 1"
    using n1 by (simp_all add: k_def)
  have s1: "1 \<le> s" unfolding s_def by (rule part_size_pos [OF n1 nt])
  have ks: "int k * s + s \<le> totalSize"
  proof -
    have "numThreads * s \<le> totalSize"
      unfolding s_def by (rule part_size_mult [OF n1])
    then show ?thesis by (simp add: n(2) algebra_simps)
  qed
  have len: "length ps = Suc k" by (simp add: ps_def n(1))
  have nth: "ps ! i = newPart totalSize numThreads s (int i)" if "i < Suc k" for i
    using that unfolding ps_def n(1) by (simp del: upt_Suc)
  have St: "Start (ps ! i) = int i * s" if "i < Suc k" for i
    using that by (simp add: nth newPart_Start)
  have En: "End (ps ! i) = int i * s + s - 1" if "i < k" for i
    using that by (simp add: nth newPart_End n(2))
  have EnL: "End (ps ! k) = totalSize - 1"
    by (simp add: nth newPart_End n(2))
  have last: "last ps = ps ! k"
  proof -
    have "ps \<noteq> []" using len by auto
    then show ?thesis by (simp add: last_conv_nth len)
  qed
  have ord: "int i * s + s \<le> int j * s" if "i < j" for i j
  proof -
    have "(int i + 1) * s \<le> int j * s" using that s1 by (intro mult_right_mono) auto
    then show ?thesis by (simp add: algebra_simps)
  qed
  have le: "Start (ps ! i) \<le> End (ps ! i)" if "i < Suc k" for i
  proof (cases "i = k")
    case True
    then show ?thesis using ks s1 by (simp add: St EnL)
  next
    case False
    then have "i < k" using that by simp
    then show ?thesis using s1 by (simp add: St En)
  qed
  have disj: "End (ps ! i) < Start (ps ! j)" if "j < Suc k" "i < j" for i j
  proof -
    have "i < k" using that by simp
    then show ?thesis using ord [OF that(2)] that by (simp add: St En)
  qed
  have "(\<Union>i < Suc k. {Start (ps ! i) .. End (ps ! i)})
        = (\<Union>i < k. {Start (ps ! i) .. End (ps ! i)}) \<union> {Start (ps ! k) .. End (ps ! k)}"
    by (simp add: lessThan_Suc Un_commute)
  also have "(\<Union>i < k. {Start (ps ! i) .. End (ps ! i)}) = (\<Union>i<k. {int i * s .. int i * s + s - 1})"
    by (simp add: St En)
  also have "{Start (ps ! k) .. End (ps ! k)} = {int k * s .. totalSize - 1}"
    by (simp add: St EnL)
  also have "(\<Union>i<k. {int i * s .. int i * s + s - 1}) \<union> {int k * s .. totalSize - 1} = {0 ..< totalSize}"
    by (rule cover_all [OF s1 ks])
  finally have cover: "(\<Union>i < Suc k. {Start (ps ! i) .. End (ps ! i)}) = {0 ..< totalSize}" .
  have c1: "length (Parts p) = nat numThreads" by (simp add: Parts len n)
  have c2: "\<forall>i < nat numThreads. Start (Parts p ! i) = int i * (totalSize div numThreads)"
    by (simp add: Parts n(1) St s_def [symmetric])
  have c3: "\<forall>i < nat numThreads - 1.
            End (Parts p ! i) - Start (Parts p ! i) + 1 = totalSize div numThreads"
    by (simp add: Parts n(1) St En s_def [symmetric])
  have c4: "End (last (Parts p)) = totalSize - 1" by (simp add: Parts last EnL)
  have c5: "\<forall>i < nat numThreads - 1. Start (Parts p ! Suc i) = End (Parts p ! i) + 1"
    by (simp add: Parts n(1) St En algebra_simps)
  have c6: "\<forall>i < nat numThreads. Start (Parts p ! i) \<le> End (Parts p ! i)"
    using le by (simp add: Parts n(1))
  have c7: "\<forall>j < nat numThreads. \<forall>i < j. End (Parts p ! i) < Start (Parts p ! j)"
    using disj by (simp add: Parts n(1))
  have c8: "(\<Union>i < nat numThreads. {Start (Parts p ! i) .. End (Parts p ! i)}) = {0 ..< totalSize}"
    using cover by (simp add: Parts n(1))
  have c9: "map (\<lambda>q. (Start q, End q)) (Parts (projr (CreateNewProgress url filename 103 5)))
           = [(0, 19), (20, 39), (40, 59), (60, 79), (80, 102)]"
    by (simp add: CreateNewProgress_def newPart_def go_quot_def Let_def upt_rec)
  show ?thesis by (intro exI [of _ p] conjI p c1 c2 c3 c4 c5 c6 c7 c8 c9)
qed

theorem CreateNewProgress_ranges_witness:
  "(1::int) \<le> 103 \<and> (1::int) \<le> 5 \<and> (5::int) \<le> 103 \<and>
   (\<exists>p. CreateNewProgress ''http://test/f'' ''a.bin'' 103 5 = Inr p
      \<and> length (Parts p) = 5
      \<and> (\<Union>i < 5. {Start (Parts p ! i) .. End (Parts p ! i)}) = {0 ..< 103})"
proof -
  have a: "(1::int) \<le> 103" "(1::int) \<le> 5" "(5::int) \<le> 103" by simp_all
  from CreateNewProgress_ranges [OF a, of "''http://test/f''" "''a.bin''"]
  obtain p where p: "CreateNewProgress ''http://test/f'' ''a.bin'' 103 5 = Inr p"
    and l: "length (Parts p) = nat 5"
    and u: "(\<Union>i < nat 5. {Start (Parts p ! i) .. End (Parts p ! i)}) = {0 ..< 103}"
    by (elim exE conjE)
  from l have l': "length (Parts p) = 5" by simp
  from u have u': "(\<Union>i < 5. {Start (Parts p ! i) .. End (Parts p ! i)}) = {0 ..< 103}" by simp
  show ?thesis by (intro conjI a exI [of _ p] p l' u')
qed

section \<open>The job queue\<close>


lemmas queue_defs = EnqueueJob_def DequeueJob_def CleanupStaleJobs_def SetJobStatus_def
  LPush_def BRPopLPush_def LRange_def LRem_def Set_key_def Get_def LLen_def
  json_Marshal_job_def json_Marshal_status_def statusKey_def emptyStatus_def
  DownloadJobsQueue_def ProcessingJobsQueue_def CompletedJobsQueue_def FailedJobsQueue_def
  JobProcessingTimeout_def Minute_def Second_def time_Since_def time_Sub_def
  maxDuration_def minDuration_def zeroTime_def Let_def
  CompleteJob_def FailJob_def removeFromProcessingQueue_def GetQueueStats_def

text \<open>
  Claim C1.  The claim: the sweep requeues an in-flight entry exactly when its
  \<open>started_at\<close> is older than 30 minutes, so a job reserved a moment ago stays in flight.
  The code: \<open>DequeueJob\<close> stamps \<open>StartedAt\<close> on its own copy only, the element in
  the processing list keeps the zero time, and \<open>CleanupStaleJobs\<close> finds every element
  stale.  A job enqueued at \<open>T0\<close>, reserved one second later and swept one second after
  that is back in the pending list with status \<open>queued\<close>.
\<close>

theorem CleanupStaleJobs_requeues_fresh_reservation:
  "(let (e0, r0, j0) = EnqueueJob emptyRedis T0 job1;
        ((got, e1), r1) = DequeueJob r0 (T0 + Second) ''w1'';
        (e2, r2) = CleanupStaleJobs r1 (T0 + 2 * Second)
    in e0 = None \<and> e1 = None \<and> e2 = None
     \<and> got = Some (job1\<lparr>job_CreatedAt := T0, job_StartedAt := T0 + Second, job_WorkerID := ''w1''\<rparr>)
     \<and> lists r1 ProcessingJobsQueue = [JobJSON (job1\<lparr>job_CreatedAt := T0\<rparr>)]
     \<and> lists r1 DownloadJobsQueue = []
     \<and> lists r2 ProcessingJobsQueue = []
     \<and> lists r2 DownloadJobsQueue = [JobJSON (job1\<lparr>job_CreatedAt := T0\<rparr>)]
     \<and> kv r2 (statusKey ''j1'') = Some (StatusJSON (emptyStatus\<lparr>st_ID := ''j1'', st_Status := ''queued'', st_CreatedAt := T0\<rparr>)))"
  by (simp add: queue_defs emptyRedis_def job1_def T0_def)


text \<open>
  The same in general: the document that \<open>DequeueJob\<close> moves into the processing list
  is the enqueued one, unchanged, and a document whose \<open>StartedAt\<close> is the zero time is
  stale at every instant of the current era.
\<close>

lemma DequeueJob_moves_document_unchanged:
  assumes "reachable r" "lists r DownloadJobsQueue = pending @ [JobJSON job]"
  shows "lists (snd (DequeueJob r now workerID)) ProcessingJobsQueue =
           JobJSON job # lists r ProcessingJobsQueue"
    and "fst (DequeueJob r now workerID) =
           (Some (job\<lparr>job_StartedAt := now, job_WorkerID := workerID\<rparr>), None)"
  using assms
  by (simp_all add: DequeueJob_def BRPopLPush_def SetJobStatus_def Set_key_def Let_def
      DownloadJobsQueue_def ProcessingJobsQueue_def)

lemma zero_StartedAt_is_stale:
  assumes "JobProcessingTimeout < now"
  shows "time_Since now zeroTime > JobProcessingTimeout"
  using assms
  by (simp add: time_Since_def time_Sub_def zeroTime_def maxDuration_def minDuration_def
      JobProcessingTimeout_def Minute_def Second_def Let_def)

lemma removeLoop_frame:
  "reachable (snd (removeLoop r jobID jobs)) = reachable r \<and>
   kv (snd (removeLoop r jobID jobs)) = kv r"
  by (induction jobs) (auto simp: LRem_def split: option.splits sum.splits)

lemma removeFromProcessingQueue_frame:
  "reachable (snd (removeFromProcessingQueue r jobID)) = reachable r \<and>
   kv (snd (removeFromProcessingQueue r jobID)) = kv r"
  by (simp add: removeFromProcessingQueue_def LRange_def removeLoop_frame)

lemma SetJobStatus_reachable:
  "reachable r \<Longrightarrow>
   SetJobStatus r status = (None, r\<lparr>kv := (kv r)(statusKey (st_ID status) \<mapsto> StatusJSON status)\<rparr>)"
  by (simp add: SetJobStatus_def Set_key_def json_Marshal_status_def)

text \<open>
  Claim C10.  \<open>CompleteJob\<close> and \<open>FailJob\<close> write the status entry from a fresh
  literal: whatever the entry held before, afterwards \<open>created_at\<close>, \<open>started_at\<close>,
  \<open>bytes_downloaded\<close> and \<open>total_bytes\<close> are zero, \<open>completed_at\<close> is the current
  time and \<open>worker_id\<close> is the caller's; \<open>CompleteJob\<close> sets status \<open>completed\<close> with
  progress 100, \<open>FailJob\<close> sets status \<open>failed\<close> with the error message.
\<close>

theorem CompleteJob_FailJob_overwrite:
  assumes "reachable r"
  shows "fst (CompleteJob r now jobID workerID) = None
       \<and> kv (snd (CompleteJob r now jobID workerID)) (statusKey jobID) =
           Some (StatusJSON
             \<lparr>st_ID = jobID, st_Status = ''completed'', st_Progress = 100,
              st_BytesDownloaded = 0, st_TotalBytes = 0, st_ErrorMessage = [],
              st_CreatedAt = zeroTime, st_StartedAt = zeroTime, st_CompletedAt = now,
              st_WorkerID = workerID\<rparr>)
       \<and> fst (FailJob r now jobID workerID errorMsg) = None
       \<and> kv (snd (FailJob r now jobID workerID errorMsg)) (statusKey jobID) =
           Some (StatusJSON
             \<lparr>st_ID = jobID, st_Status = ''failed'', st_Progress = 0,
              st_BytesDownloaded = 0, st_TotalBytes = 0, st_ErrorMessage = errorMsg,
              st_CreatedAt = zeroTime, st_StartedAt = zeroTime, st_CompletedAt = now,
              st_WorkerID = workerID\<rparr>)"
proof -
  define r1 where "r1 = snd (removeFromProcessingQueue r jobID)"
  have r1: "reachable r1" "kv r1 = kv r"
    using assms by (simp_all add: r1_def removeFromProcessingQueue_frame)
  show ?thesis
    unfolding CompleteJob_def FailJob_def Let_def r1_def [symmetric]
    by (simp add: SetJobStatus_reachable [OF r1(1)] emptyStatus_def)
qed

text \<open>
  Claim C9.  \<open>UpdateJobProgress\<close> reads the job's status entry, replaces
  \<open>progress\<close>, \<open>bytes_downloaded\<close> and \<open>total_bytes\<close> and writes it back with every
  other field as it was; when there is no entry it writes a new one in state
  \<open>processing\<close> and does not fail.  The entry read holds the job's own id, as every
  entry of a well-keyed store does.
\<close>

theorem UpdateJobProgress_frame:
  assumes "reachable r"
  shows "(kv r (statusKey jobID) = Some (StatusJSON st) \<longrightarrow> st_ID st = jobID \<longrightarrow>
            UpdateJobProgress r jobID progress bytesDownloaded totalBytes =
              (None, r\<lparr>kv := (kv r)(statusKey jobID \<mapsto>
                 StatusJSON (st\<lparr>st_Progress := progress, st_BytesDownloaded := bytesDownloaded,
                                st_TotalBytes := totalBytes\<rparr>))\<rparr>))
       \<and> (kv r (statusKey jobID) = None \<longrightarrow>
            UpdateJobProgress r jobID progress bytesDownloaded totalBytes =
              (None, r\<lparr>kv := (kv r)(statusKey jobID \<mapsto>
                 StatusJSON
                   \<lparr>st_ID = jobID, st_Status = ''processing'', st_Progress = progress,
                    st_BytesDownloaded = bytesDownloaded, st_TotalBytes = totalBytes,
                    st_ErrorMessage = [], st_CreatedAt = zeroTime, st_StartedAt = zeroTime,
                    st_CompletedAt = zeroTime, st_WorkerID = []\<rparr>)\<rparr>))"
  using assms
  by (auto simp: UpdateJobProgress_def Get_def SetJobStatus_reachable emptyStatus_def)


theorem CompleteJob_FailJob_overwrite_witness:
  "reachable redis1
   \<and> kv redis1 (statusKey ''j1'') = Some (StatusJSON status1)
   \<and> st_CreatedAt status1 = T0 \<and> st_BytesDownloaded status1 = 500
   \<and> kv (snd (CompleteJob redis1 (T0 + 2 * Second) ''j1'' ''w1'')) (statusKey ''j1'') =
           Some (StatusJSON
             \<lparr>st_ID = ''j1'', st_Status = ''completed'', st_Progress = 100,
              st_BytesDownloaded = 0, st_TotalBytes = 0, st_ErrorMessage = [],
              st_CreatedAt = zeroTime, st_StartedAt = zeroTime, st_CompletedAt = T0 + 2 * Second,
              st_WorkerID = ''w1''\<rparr>)"
proof -
  have h: "reachable redis1" by (simp add: redis1_def)
  show ?thesis
    using CompleteJob_FailJob_overwrite [OF h, of "T0 + 2 * Second" "''j1''" "''w1''" "[]"]
    by (simp add: redis1_def status1_def)
qed

theorem UpdateJobProgress_frame_witness:
  "reachable redis1 \<and> kv redis1 (statusKey ''j1'') = Some (StatusJSON status1)
   \<and> st_ID status1 = ''j1'' \<and> kv redis1 (statusKey ''j2'') = None
   \<and> UpdateJobProgress redis1 ''j1'' 75 750 1000 =
        (None, redis1\<lparr>kv := (kv redis1)(statusKey ''j1'' \<mapsto>
           StatusJSON (status1\<lparr>st_Progress := 75, st_BytesDownloaded := 750,
                               st_TotalBytes := 1000\<rparr>))\<rparr>)
   \<and> UpdateJobProgress redis1 ''j2'' 75 750 1000 =
        (None, redis1\<lparr>kv := (kv redis1)(statusKey ''j2'' \<mapsto>
           StatusJSON
             \<lparr>st_ID = ''j2'', st_Status = ''processing'', st_Progress = 75,
              st_BytesDownloaded = 750, st_TotalBytes = 1000,
              st_ErrorMessage = [], st_CreatedAt = zeroTime, st_StartedAt = zeroTime,
              st_CompletedAt = zeroTime, st_WorkerID = []\<rparr>)\<rparr>)"
proof -
  have h: "reachable redis1" by (simp add: redis1_def)
  have k1: "kv redis1 (statusKey ''j1'') = Some (StatusJSON status1)"
    by (simp add: redis1_def)
  have k2: "kv redis1 (statusKey ''j2'') = None"
    by (simp add: redis1_def statusKey_def)
  have i: "st_ID status1 = ''j1''" by (simp add: status1_def)
  from UpdateJobProgress_frame [OF h, of "''j1''" status1 75 750 1000] k1 i
  have a: "UpdateJobProgress redis1 ''j1'' 75 750 1000 =
        (None, redis1\<lparr>kv := (kv redis1)(statusKey ''j1'' \<mapsto>
           StatusJSON (status1\<lparr>st_Progress := 75, st_BytesDownloaded := 750,
                               st_TotalBytes := 1000\<rparr>))\<rparr>)"
    by blast
  from UpdateJobProgress_frame [OF h, of "''j2''" status1 75 750 1000] k2
  have b: "UpdateJobProgress redis1 ''j2'' 75 750 1000 =
        (None, redis1\<lparr>kv := (kv redis1)(statusKey ''j2'' \<mapsto>
           StatusJSON
             \<lparr>st_ID = ''j2'', st_Status = ''processing'', st_Progress = 75,
              st_BytesDownloaded = 750, st_TotalBytes = 1000,
              st_ErrorMessage = [], st_CreatedAt = zeroTime, st_StartedAt = zeroTime,
              st_CompletedAt = zeroTime, st_WorkerID = []\<rparr>)\<rparr>)"
    by blast
  show ?thesis by (intro conjI h k1 k2 i a b)
qed

text \<open>
  Claim C5.  The claim: after \<open>complete\<close> the job's entry is in the completed list,
  after \<open>fail\<close> in the failed list, and the four lengths reported by \<open>stats\<close> add up to
  the number of jobs enqueued.  The code: \<open>CompleteJob\<close> and \<open>FailJob\<close> remove the entry
  from the processing list and push it nowhere.  With one job enqueued, reserved and
  then completed (or failed), all four lists are empty and the total is 0.
\<close>

theorem CompleteJob_leaves_terminal_lists_empty:
  "(let (e0, r0, j0) = EnqueueJob emptyRedis T0 job1;
        ((got, e1), r1) = DequeueJob r0 (T0 + Second) ''w1'';
        (e2, r2) = CompleteJob r1 (T0 + 2 * Second) ''j1'' ''w1'';
        (e3, r3) = FailJob r1 (T0 + 2 * Second) ''j1'' ''w1'' ''download incomplete''
    in e0 = None \<and> e1 = None \<and> e2 = None \<and> e3 = None
     \<and> lists r1 ProcessingJobsQueue = [JobJSON (job1\<lparr>job_CreatedAt := T0\<rparr>)]
     \<and> lists r2 CompletedJobsQueue = [] \<and> lists r2 FailedJobsQueue = []
     \<and> lists r2 ProcessingJobsQueue = [] \<and> lists r2 DownloadJobsQueue = []
     \<and> lists r3 CompletedJobsQueue = [] \<and> lists r3 FailedJobsQueue = []
     \<and> lists r3 ProcessingJobsQueue = [] \<and> lists r3 DownloadJobsQueue = []
     \<and> (\<exists>stats. GetQueueStats r2 = Inr stats \<and> stats ''completed'' = Some 0
            \<and> stats ''total'' = Some 0)
     \<and> (\<exists>stats. GetQueueStats r3 = Inr stats \<and> stats ''failed'' = Some 0
            \<and> stats ''total'' = Some 0))"
  by (simp add: queue_defs emptyRedis_def job1_def T0_def)

subsection \<open>Status entries sit under the key of their own id\<close>

lemma SetJobStatus_well_keyed:
  "well_keyed r \<Longrightarrow> well_keyed (snd (SetJobStatus r status))"
  by (auto simp: well_keyed_def SetJobStatus_def Set_key_def json_Marshal_status_def Let_def)

lemma lists_update_well_keyed [simp]: "well_keyed (r\<lparr>lists := l\<rparr>) = well_keyed r"
  by (simp add: well_keyed_def)

lemma removeFromProcessingQueue_well_keyed:
  "well_keyed r \<Longrightarrow> well_keyed (snd (removeFromProcessingQueue r jobID))"
  by (simp add: well_keyed_def removeFromProcessingQueue_frame)

lemma EnqueueJob_well_keyed:
  "well_keyed r \<Longrightarrow> well_keyed (fst (snd (EnqueueJob r now job)))"
  by (auto simp: EnqueueJob_def LPush_def Let_def intro: SetJobStatus_well_keyed)

lemma DequeueJob_well_keyed:
  "well_keyed r \<Longrightarrow> well_keyed (snd (DequeueJob r now workerID))"
  by (auto simp: DequeueJob_def BRPopLPush_def LPush_def Let_def
      split: sum.splits redis_err.splits option.splits if_splits
      intro: SetJobStatus_well_keyed)

lemma CompleteJob_well_keyed:
  "well_keyed r \<Longrightarrow> well_keyed (snd (CompleteJob r now jobID workerID))"
proof -
  assume "well_keyed r"
  then have "well_keyed (snd (SetJobStatus (snd (removeFromProcessingQueue r jobID)) st))" for st
    by (intro SetJobStatus_well_keyed removeFromProcessingQueue_well_keyed)
  then show ?thesis
    by (auto simp: CompleteJob_def Let_def split: prod.splits option.splits)
       (metis snd_conv)+
qed

lemma FailJob_well_keyed:
  "well_keyed r \<Longrightarrow> well_keyed (snd (FailJob r now jobID workerID msg))"
proof -
  assume "well_keyed r"
  then have "well_keyed (snd (SetJobStatus (snd (removeFromProcessingQueue r jobID)) st))" for st
    by (intro SetJobStatus_well_keyed removeFromProcessingQueue_well_keyed)
  then show ?thesis
    by (auto simp: FailJob_def Let_def split: prod.splits option.splits)
       (metis snd_conv)+
qed

lemma UpdateJobProgress_well_keyed:
  "well_keyed r \<Longrightarrow> well_keyed (snd (UpdateJobProgress r jobID p b t))"
  by (auto simp: UpdateJobProgress_def split: sum.splits redis_err.splits option.splits
      intro: SetJobStatus_well_keyed)

lemma cleanupLoop_well_keyed:
  "well_keyed r \<Longrightarrow> well_keyed (snd (cleanupLoop r now k jobs))"
proof (induction jobs arbitrary: r k)
  case Nil
  then show ?case by simp
next
  case (Cons jobData rest)
  show ?case
  proof (cases "json_Unmarshal_job jobData")
    case None
    with Cons show ?thesis by simp
  next
    case (Some job0)
    show ?thesis
    proof (cases "time_Since now (job_StartedAt job0) > JobProcessingTimeout")
      case False
      with Some Cons show ?thesis by simp
    next
      case True
      show ?thesis
      proof (cases "reachable r")
        case False
        with Some True Cons show ?thesis by (simp add: LRem_def)
      next
        case r: True
        define r2 where "r2 = r\<lparr>lists := ((lists r)(ProcessingJobsQueue :=
            remove1 jobData (lists r ProcessingJobsQueue)))(DownloadJobsQueue :=
              JobJSON (job0\<lparr>job_StartedAt := zeroTime, job_WorkerID := []\<rparr>) #
              ((lists r)(ProcessingJobsQueue := remove1 jobData (lists r ProcessingJobsQueue)))
                 DownloadJobsQueue)\<rparr>"
        have "well_keyed r2" using Cons.prems by (simp add: r2_def)
        then have w: "well_keyed (snd (SetJobStatus r2 st))" for st
          by (rule SetJobStatus_well_keyed)
        show ?thesis
          using Some True r Cons.IH [OF w]
          by (simp add: LRem_def LPush_def Let_def json_Marshal_job_def r2_def)
      qed
    qed
  qed
qed

lemma CleanupStaleJobs_well_keyed:
  "well_keyed r \<Longrightarrow> well_keyed (snd (CleanupStaleJobs r now))"
  by (auto simp: CleanupStaleJobs_def LRange_def intro: cleanupLoop_well_keyed)

lemma well_keyed_ID:
  "well_keyed r \<Longrightarrow> kv r (statusKey jobID) = Some (StatusJSON status) \<Longrightarrow> st_ID status = jobID"
  by (auto simp: well_keyed_def statusKey_def)

section \<open>Job intake\<close>

text \<open>
  Claim C8, as stated: a request with more than 16 threads is accepted and processed
  with 16.  The handler refuses it: 17 threads get 400 Bad Request and nothing is
  enqueued.
\<close>

theorem enqueueDownloadHandler_refuses_17_threads:
  "enqueueDownloadHandler emptyRedis T0 ''id-1''
     (Some \<lparr>req_URL = ''http://test/10MB'', req_Output = ''a.bin'', req_Threads = 17\<rparr>)
   = (ErrorReply 400 ''Maximum 16 threads allowed'', emptyRedis)
   \<and> lists (snd (enqueueDownloadHandler emptyRedis T0 ''id-1''
     (Some \<lparr>req_URL = ''http://test/10MB'', req_Output = ''a.bin'', req_Threads = 17\<rparr>)))
       DownloadJobsQueue = []"
  by (simp add: enqueueDownloadHandler_def ShouldBindJSON_def emptyRedis_def Let_def)

lemma EnqueueJob_reachable:
  "reachable r \<Longrightarrow>
   EnqueueJob r now job =
     (None,
      r\<lparr>lists := (lists r)(DownloadJobsQueue :=
                  JobJSON (job\<lparr>job_CreatedAt := now\<rparr>) # lists r DownloadJobsQueue),
        kv := (kv r)(statusKey (job_ID job) \<mapsto>
                StatusJSON (emptyStatus\<lparr>st_ID := job_ID job, st_Status := ''queued'',
                                         st_CreatedAt := now\<rparr>))\<rparr>,
      job\<lparr>job_CreatedAt := now\<rparr>)"
  by (simp add: EnqueueJob_def LPush_def SetJobStatus_def Set_key_def json_Marshal_job_def
      json_Marshal_status_def Let_def)

text \<open>
  Claim C8, amended.  The request is refused with 400 when the body does not bind,
  which is the case exactly when it is not a JSON request or \<open>url\<close> or \<open>output\<close> is
  empty.  A thread count that is absent or not positive becomes 4.  A thread count
  above 16 is refused with 400 and nothing is enqueued; it is not clamped.  Every job
  that is enqueued has between 1 and 16 threads and non-empty \<open>url\<close> and \<open>output\<close>.
\<close>

theorem enqueueDownloadHandler_threads:
  "(ShouldBindJSON body = None \<longleftrightarrow>
      body = None \<or> req_URL (the body) = [] \<or> req_Output (the body) = [])
   \<and> (ShouldBindJSON body = None \<longrightarrow>
        enqueueDownloadHandler r now jobID body = (ErrorReply 400 ''Invalid request body'', r))
   \<and> (ShouldBindJSON body = Some req \<longrightarrow> 16 < req_Threads req \<longrightarrow>
        enqueueDownloadHandler r now jobID body =
          (ErrorReply 400 ''Maximum 16 threads allowed'', r))
   \<and> (ShouldBindJSON body = Some req \<longrightarrow> req_Threads req \<le> 16 \<longrightarrow> reachable r \<longrightarrow>
        (\<exists>r' job.
           enqueueDownloadHandler r now jobID body =
             (CreatedReply \<lparr>resp_JobID = jobID,
                            resp_Message = ''Download job enqueued successfully'',
                            resp_Status = ''queued''\<rparr>, r')
           \<and> lists r' DownloadJobsQueue = JobJSON job # lists r DownloadJobsQueue
           \<and> job_ID job = jobID \<and> job_URL job = req_URL req \<and> job_URL job \<noteq> []
           \<and> job_OutputPath job = req_Output req \<and> job_OutputPath job \<noteq> []
           \<and> job_Threads job = (if req_Threads req \<le> 0 then 4 else req_Threads req)
           \<and> 1 \<le> job_Threads job \<and> job_Threads job \<le> 16))"
proof -
  have a: "ShouldBindJSON body = None \<longleftrightarrow>
      body = None \<or> req_URL (the body) = [] \<or> req_Output (the body) = []"
    by (cases body) (simp_all add: ShouldBindJSON_def)
  have b: "ShouldBindJSON body = None \<longrightarrow>
        enqueueDownloadHandler r now jobID body = (ErrorReply 400 ''Invalid request body'', r)"
    by (simp add: enqueueDownloadHandler_def)
  have c: "ShouldBindJSON body = Some req \<longrightarrow> 16 < req_Threads req \<longrightarrow>
        enqueueDownloadHandler r now jobID body =
          (ErrorReply 400 ''Maximum 16 threads allowed'', r)"
    by (simp add: enqueueDownloadHandler_def Let_def)
  have d: "\<exists>r' job.
           enqueueDownloadHandler r now jobID body =
             (CreatedReply \<lparr>resp_JobID = jobID,
                            resp_Message = ''Download job enqueued successfully'',
                            resp_Status = ''queued''\<rparr>, r')
           \<and> lists r' DownloadJobsQueue = JobJSON job # lists r DownloadJobsQueue
           \<and> job_ID job = jobID \<and> job_URL job = req_URL req \<and> job_URL job \<noteq> []
           \<and> job_OutputPath job = req_Output req \<and> job_OutputPath job \<noteq> []
           \<and> job_Threads job = (if req_Threads req \<le> 0 then 4 else req_Threads req)
           \<and> 1 \<le> job_Threads job \<and> job_Threads job \<le> 16"
    if h: "ShouldBindJSON body = Some req" "req_Threads req \<le> 16" "reachable r"
  proof -
    have ne: "req_URL req \<noteq> []" "req_Output req \<noteq> []"
      using h(1) by (auto simp: ShouldBindJSON_def split: option.splits if_splits)
    show ?thesis
      using h ne
      by (cases "req_Threads req \<le> 0")
         (simp_all add: enqueueDownloadHandler_def Let_def EnqueueJob_reachable)
  qed
  from a b c d show ?thesis by blast
qed

theorem enqueueDownloadHandler_threads_witness:
  "ShouldBindJSON (Some \<lparr>req_URL = ''http://test/10MB'', req_Output = ''a.bin'', req_Threads = 0\<rparr>)
     = Some \<lparr>req_URL = ''http://test/10MB'', req_Output = ''a.bin'', req_Threads = 0\<rparr>
   \<and> reachable emptyRedis
   \<and> (\<exists>r' job.
         enqueueDownloadHandler emptyRedis T0 ''id-1''
           (Some \<lparr>req_URL = ''http://test/10MB'', req_Output = ''a.bin'', req_Threads = 0\<rparr>) =
             (CreatedReply \<lparr>resp_JobID = ''id-1'',
                            resp_Message = ''Download job enqueued successfully'',
                            resp_Status = ''queued''\<rparr>, r')
         \<and> lists r' DownloadJobsQueue = [JobJSON job] \<and> job_Threads job = 4)
   \<and> ShouldBindJSON (Some \<lparr>req_URL = ''http://test/10MB'', req_Output = ''a.bin'', req_Threads = 17\<rparr>)
     = Some \<lparr>req_URL = ''http://test/10MB'', req_Output = ''a.bin'', req_Threads = 17\<rparr>
   \<and> enqueueDownloadHandler emptyRedis T0 ''id-2''
        (Some \<lparr>req_URL = ''http://test/10MB'', req_Output = ''a.bin'', req_Threads = 17\<rparr>) =
          (ErrorReply 400 ''Maximum 16 threads allowed'', emptyRedis)
   \<and> ShouldBindJSON (Some \<lparr>req_URL = [], req_Output = ''a.bin'', req_Threads = 4\<rparr>) = None
   \<and> enqueueDownloadHandler emptyRedis T0 ''id-3''
        (Some \<lparr>req_URL = [], req_Output = ''a.bin'', req_Threads = 4\<rparr>) =
          (ErrorReply 400 ''Invalid request body'', emptyRedis)"
proof -
  let ?q0 = "\<lparr>req_URL = ''http://test/10MB'', req_Output = ''a.bin'', req_Threads = 0\<rparr>"
  let ?q17 = "\<lparr>req_URL = ''http://test/10MB'', req_Output = ''a.bin'', req_Threads = 17\<rparr>"
  let ?qe = "\<lparr>req_URL = [], req_Output = ''a.bin'', req_Threads = 4\<rparr>"
  have b0: "ShouldBindJSON (Some ?q0) = Some ?q0" by (simp add: ShouldBindJSON_def)
  have b17: "ShouldBindJSON (Some ?q17) = Some ?q17" by (simp add: ShouldBindJSON_def)
  have be: "ShouldBindJSON (Some ?qe) = None" by (simp add: ShouldBindJSON_def)
  have re: "reachable emptyRedis" by (simp add: emptyRedis_def)
  have le: "lists emptyRedis DownloadJobsQueue = []" by (simp add: emptyRedis_def)
  from enqueueDownloadHandler_threads [of "Some ?q0" emptyRedis T0 "''id-1''" ?q0] b0 re
  have c0: "\<exists>r' job.
         enqueueDownloadHandler emptyRedis T0 ''id-1'' (Some ?q0) =
             (CreatedReply \<lparr>resp_JobID = ''id-1'',
                            resp_Message = ''Download job enqueued successfully'',
                            resp_Status = ''queued''\<rparr>, r')
         \<and> lists r' DownloadJobsQueue = [JobJSON job] \<and> job_Threads job = 4"
    by (simp add: le) blast
  from enqueueDownloadHandler_threads [of "Some ?q17" emptyRedis T0 "''id-2''" ?q17] b17
  have c17: "enqueueDownloadHandler emptyRedis T0 ''id-2'' (Some ?q17) =
          (ErrorReply 400 ''Maximum 16 threads allowed'', emptyRedis)"
    by simp
  from enqueueDownloadHandler_threads [of "Some ?qe" emptyRedis T0 "''id-3''" ?qe] be
  have ce: "enqueueDownloadHandler emptyRedis T0 ''id-3'' (Some ?qe) =
          (ErrorReply 400 ''Invalid request body'', emptyRedis)"
    by simp
  show ?thesis by (intro conjI b0 re c0 b17 c17 be ce)
qed

section \<open>Verification of a download\<close>

lemma VerifyDownload_nil_iff:
  assumes "d_Progress d = Some p"
  shows "fst (VerifyDownload fs d) = Verify_nil \<longleftrightarrow>
           IsComplete p \<and> (os_Stat fs (Filename p) = None
                           \<or> os_Stat fs (Filename p) = Some (TotalSize p))"
  using assms by (auto simp: VerifyDownload_def split: option.splits)

lemma VerifyDownload_removes_iff:
  assumes "d_Progress d = Some p" "fs (d_ProgressFile d) \<noteq> None"
  shows "snd (VerifyDownload fs d) (d_ProgressFile d) = None \<longleftrightarrow>
           IsComplete p \<and> os_Stat fs (Filename p) = Some (TotalSize p)"
  using assms by (auto simp: VerifyDownload_def os_Remove_def split: option.splits)

text \<open>
  Claim C6.  The claim: verification succeeds only if every range is done and the
  size of the output file equals the total size; otherwise it returns an error.  The
  code: when every part is done and \<open>os.Stat\<close> on the output file fails, no size is
  compared and \<open>VerifyDownload\<close> returns \<open>nil\<close>.  With the one part done and no output
  file on disk the result is \<open>nil\<close>, and the progress file stays.
\<close>

theorem VerifyDownload_nil_without_output_file:
  "VerifyDownload fs1 downloader1 = (Verify_nil, fs1)
   \<and> IsComplete progress1
   \<and> os_Stat fs1 (Filename progress1) = None
   \<and> os_Stat fs1 (Filename progress1) \<noteq> Some (TotalSize progress1)
   \<and> fs1 (d_ProgressFile downloader1) = Some ''{}''"
  by (simp add: VerifyDownload_def downloader1_def progress1_def fs1_def IsComplete_def
      os_Stat_def)

section \<open>The range probe\<close>

text \<open>
  Claim C7, as stated: a HEAD answer with a non-success status makes the probe fall
  back to the ranged GET.  The code returns the error at once: with HEAD answered 405
  the only request sent is the HEAD, although the ranged GET would have been answered
  206 with a total of 5000 bytes.
\<close>

theorem SupportsRange_no_fallback_on_HEAD_status:
  "SupportsRange origin405 = ([HEAD_request], Inl (ServerReturnedStatus 405))
   \<and> GET_request (Some ''bytes=0-1023'') \<notin> set (fst (SupportsRange origin405))
   \<and> SupportsRange originNoHead =
        ([HEAD_request, GET_request (Some ''bytes=0-1023'')], Inr (True, 5000))"
  by (simp add: SupportsRange_def origin405_def originNoHead_def probe_full_def
      probe_result_def)

lemma probe_result_Inr: "probe_result b n = Inr (b', n') \<Longrightarrow> 0 < n'"
  by (auto simp: probe_result_def split: if_splits)

lemma probe_full_Inr: "snd (probe_full og sent b n) = Inr (b', n') \<Longrightarrow> 0 < n'"
  by (auto simp: probe_full_def split: if_splits option.splits dest: probe_result_Inr)

lemma SupportsRange_positive: "snd (SupportsRange og) = Inr (b, n) \<Longrightarrow> 0 < n"
  by (auto simp: SupportsRange_def Let_def split: if_splits option.splits
      dest: probe_result_Inr probe_full_Inr)

lemma probe_full_fails:
  "isl (snd (probe_full og sent b n)) \<longleftrightarrow>
     n \<le> 0 \<and> (case full_answer og of
                 None \<Rightarrow> True
               | Some fullResp \<Rightarrow> StatusCode fullResp \<noteq> 200 \<or> ContentLength fullResp \<le> 0)"
  by (auto simp: probe_full_def probe_result_def split: option.splits)

text \<open>
  Claim C7, amended.  The probe sends the ranged GET for the first 1 KiB exactly when
  the HEAD request itself fails, that is, when the client returns an error and no
  response (and the GET request can be built).  A HEAD response with a status other
  than 200 makes the probe fail at once with that status and no further request.  The probe fails exactly
  when a request cannot be made, a response carries a status that is not accepted
  (HEAD: other than 200; ranged GET: other than 206 and 200), or no positive total
  length is obtained; a length it returns is positive.
\<close>

theorem SupportsRange_fallback:
  "(GET_request (Some ''bytes=0-1023'') \<in> set (fst (SupportsRange og)) \<longleftrightarrow>
      head_answer og = None \<and> new_request_ok og)
   \<and> (head_answer og = Some resp \<longrightarrow> StatusCode resp \<noteq> 200 \<longrightarrow>
        SupportsRange og = ([HEAD_request], Inl (ServerReturnedStatus (StatusCode resp))))
   \<and> (head_answer og = Some resp \<longrightarrow> StatusCode resp = 200 \<longrightarrow>
        SupportsRange og =
          ([HEAD_request],
           if ContentLength resp \<le> 0 then Inl NoContentLength
           else Inr (AcceptRanges resp = ''bytes'', ContentLength resp)))
   \<and> (isl (snd (SupportsRange og)) \<longleftrightarrow>
        (case head_answer og of
           Some resp \<Rightarrow> StatusCode resp \<noteq> 200 \<or> ContentLength resp \<le> 0
         | None \<Rightarrow>
             \<not> new_request_ok og \<or>
             (case range_answer og of
                None \<Rightarrow> True
              | Some resp \<Rightarrow>
                  (StatusCode resp \<noteq> 206 \<and> StatusCode resp \<noteq> 200) \<or>
                  ((if StatusCode resp = 206
                    then (case ContentRangeHeader resp of
                            ContentRange first_byte last_byte total_bytes \<Rightarrow> total_bytes
                          | _ \<Rightarrow> 0)
                    else ContentLength resp) \<le> 0
                   \<and> (case full_answer og of
                        None \<Rightarrow> True
                      | Some fullResp \<Rightarrow>
                          StatusCode fullResp \<noteq> 200 \<or> ContentLength fullResp \<le> 0)))))
   \<and> (\<forall>b n. snd (SupportsRange og) = Inr (b, n) \<longrightarrow> 0 < n)"
proof -
  have sent: "fst (probe_full og s b n) = s \<or> fst (probe_full og s b n) = s @ [GET_request None]"
    for s b n
    by (simp add: probe_full_def split: option.splits)
  have a: "GET_request (Some ''bytes=0-1023'') \<in> set (fst (SupportsRange og)) \<longleftrightarrow>
      head_answer og = None \<and> new_request_ok og"
  proof (cases "head_answer og")
    case None
    show ?thesis
    proof (cases "new_request_ok og")
      case False
      with None show ?thesis by (simp add: SupportsRange_def)
    next
      case True
      show ?thesis
      proof (cases "range_answer og")
        case None
        with \<open>head_answer og = None\<close> True show ?thesis by (simp add: SupportsRange_def)
      next
        case (Some resp)
        have "GET_request (Some ''bytes=0-1023'') \<in> set (fst (probe_full og
                [HEAD_request, GET_request (Some ''bytes=0-1023'')] b n))" for b n
          using sent [of "[HEAD_request, GET_request (Some ''bytes=0-1023'')]" b n] by auto
        with \<open>head_answer og = None\<close> True Some show ?thesis
          by (simp add: SupportsRange_def Let_def)
      qed
    qed
  next
    case (Some resp)
    then show ?thesis by (simp add: SupportsRange_def)
  qed
  have b: "head_answer og = Some resp \<longrightarrow> StatusCode resp \<noteq> 200 \<longrightarrow>
        SupportsRange og = ([HEAD_request], Inl (ServerReturnedStatus (StatusCode resp)))"
    by (simp add: SupportsRange_def)
  have c: "head_answer og = Some resp \<longrightarrow> StatusCode resp = 200 \<longrightarrow>
        SupportsRange og =
          ([HEAD_request],
           if ContentLength resp \<le> 0 then Inl NoContentLength
           else Inr (AcceptRanges resp = ''bytes'', ContentLength resp))"
    by (simp add: SupportsRange_def probe_result_def)
  have d: "isl (snd (SupportsRange og)) \<longleftrightarrow>
        (case head_answer og of
           Some resp \<Rightarrow> StatusCode resp \<noteq> 200 \<or> ContentLength resp \<le> 0
         | None \<Rightarrow>
             \<not> new_request_ok og \<or>
             (case range_answer og of
                None \<Rightarrow> True
              | Some resp \<Rightarrow>
                  (StatusCode resp \<noteq> 206 \<and> StatusCode resp \<noteq> 200) \<or>
                  ((if StatusCode resp = 206
                    then (case ContentRangeHeader resp of
                            ContentRange first_byte last_byte total_bytes \<Rightarrow> total_bytes
                          | _ \<Rightarrow> 0)
                    else ContentLength resp) \<le> 0
                   \<and> (case full_answer og of
                        None \<Rightarrow> True
                      | Some fullResp \<Rightarrow>
                          StatusCode fullResp \<noteq> 200 \<or> ContentLength fullResp \<le> 0))))"
    by (simp add: SupportsRange_def probe_full_fails probe_result_def Let_def
        split: option.splits)
  have e: "\<forall>b n. snd (SupportsRange og) = Inr (b, n) \<longrightarrow> 0 < n"
    using SupportsRange_positive by blast
  show ?thesis by (intro conjI a b c d e)
qed

theorem SupportsRange_fallback_witness:
  "head_answer origin405 =
     Some \<lparr>StatusCode = 405, ContentLength = 0, AcceptRanges = [],
           ContentRangeHeader = NoContentRange\<rparr>
   \<and> SupportsRange origin405 = ([HEAD_request], Inl (ServerReturnedStatus 405))
   \<and> head_answer originNoHead = None \<and> new_request_ok originNoHead
   \<and> GET_request (Some ''bytes=0-1023'') \<in> set (fst (SupportsRange originNoHead))
   \<and> \<not> isl (snd (SupportsRange originNoHead))"
proof -
  let ?h = "\<lparr>StatusCode = 405, ContentLength = 0, AcceptRanges = [],
           ContentRangeHeader = NoContentRange\<rparr>"
  have h: "head_answer origin405 = Some ?h" by (simp add: origin405_def)
  have n: "head_answer originNoHead = None" "new_request_ok originNoHead"
    by (simp_all add: originNoHead_def origin405_def)
  from SupportsRange_fallback [of origin405 ?h] h
  have a: "SupportsRange origin405 = ([HEAD_request], Inl (ServerReturnedStatus 405))"
    by simp
  from SupportsRange_fallback [of originNoHead ?h] n
  have b: "GET_request (Some ''bytes=0-1023'') \<in> set (fst (SupportsRange originNoHead))"
    by blast
  from SupportsRange_fallback [of originNoHead ?h]
  have c: "\<not> isl (snd (SupportsRange originNoHead))"
    by (simp add: originNoHead_def origin405_def)
  show ?thesis by (intro conjI h a n b c)
qed

section \<open>The range fetcher\<close>

lemma after_copy_frame:
  "Downloaded (fst (after_copy part)) = Downloaded part"
  "Start (fst (after_copy part)) = Start part"
  "End (fst (after_copy part)) = End part"
  "Done part \<Longrightarrow> Done (fst (after_copy part))"
  by (simp_all add: after_copy_def)

lemma step_frame:
  "Start (fst (step s ev)) = Start (fst s) \<and> End (fst (step s ev)) = End (fst s)"
  by (induction s ev rule: step.induct)
     (simp_all add: Let_def after_copy_frame split: event.splits)

lemma step_Downloaded_mono: "Downloaded (fst s) \<le> Downloaded (fst (step s ev))"
  by (induction s ev rule: step.induct)
     (simp_all add: Let_def after_copy_frame split: event.splits)

lemma step_Done_stays: "Done (fst s) \<Longrightarrow> Done (fst (step s ev))"
  by (induction s ev rule: step.induct)
     (simp_all add: Let_def after_copy_frame split: event.splits)

lemma step_fits_bound:
  assumes "fits s ev" "Downloaded (fst s) \<le> End (fst s) - Start (fst s) + 1"
  shows "Downloaded (fst (step s ev)) \<le> End (fst s) - Start (fst s) + 1"
  using assms
  by (induction s ev rule: step.induct)
     (auto simp add: Let_def after_copy_frame split: event.splits)

lemma run_append: "run s (evs @ evs') = run (run s evs) evs'"
  by (induction evs arbitrary: s) simp_all

lemma run_frame:
  "Start (fst (run s evs)) = Start (fst s) \<and> End (fst (run s evs)) = End (fst s)"
  by (induction evs arbitrary: s) (simp_all add: step_frame)

lemma run_Downloaded_mono: "Downloaded (fst s) \<le> Downloaded (fst (run s evs))"
proof (induction evs arbitrary: s)
  case Nil
  then show ?case by simp
next
  case (Cons ev evs)
  have "Downloaded (fst s) \<le> Downloaded (fst (step s ev))"
    by (rule step_Downloaded_mono)
  also have "\<dots> \<le> Downloaded (fst (run (step s ev) evs))"
    by (rule Cons.IH)
  finally show ?case by simp
qed

lemma run_Done_stays: "Done (fst s) \<Longrightarrow> Done (fst (run s evs))"
  by (induction evs arbitrary: s) (simp_all add: step_Done_stays)

lemma run_fits_bound:
  assumes "all_fit s evs" "Downloaded (fst s) \<le> End (fst s) - Start (fst s) + 1"
  shows "Downloaded (fst (run s evs)) \<le> End (fst s) - Start (fst s) + 1"
  using assms
proof (induction evs arbitrary: s)
  case Nil
  then show ?case by simp
next
  case (Cons ev evs)
  from Cons.prems have f: "fits s ev" and a: "all_fit (step s ev) evs" by simp_all
  have b: "Downloaded (fst (step s ev)) \<le> End (fst (step s ev)) - Start (fst (step s ev)) + 1"
    using step_fits_bound [OF f Cons.prems(2)] by (simp add: step_frame)
  from Cons.IH [OF a b] show ?case by (simp add: step_frame)
qed

text \<open>
  Claim C3, as stated: \<open>Downloaded\<close> never exceeds \<open>End - Start + 1\<close>, also when the
  origin answers the ranged request with 200 OK and the whole body.  The fetcher adds
  every byte it writes: for the part [0..24] of a 100-byte file, a 200 response with
  the 100 bytes of the file takes \<open>Downloaded\<close> to 100, above the 25 of the part.
\<close>

theorem downloadPart_200_exceeds_extent:
  "Downloaded (fst (downloadPart part0 whole_body_200)) = 100
   \<and> End part0 - Start part0 + 1 = 25
   \<and> \<not> Downloaded (fst (downloadPart part0 whole_body_200)) \<le> End part0 - Start part0 + 1"
  by (simp add: downloadPart_def enter_def part0_def whole_body_200_def Let_def)

text \<open>
  Claim C3, amended.  Over every execution of \<open>downloadPart\<close>, \<open>Downloaded\<close> does not
  decrease, \<open>Done\<close> once true stays true, and \<open>Start\<close> and \<open>End\<close> do not change.
  \<open>Downloaded\<close> stays at most \<open>End - Start + 1\<close> when it starts so and every write ends
  inside the part, that is, no response body carries more than the remaining bytes of
  the range.
\<close>

theorem downloadPart_monotone:
  "Downloaded (fst (downloadPart part evs)) \<le> Downloaded (fst (downloadPart part (evs @ evs')))
   \<and> (Done (fst (downloadPart part evs)) \<longrightarrow> Done (fst (downloadPart part (evs @ evs'))))
   \<and> Start (fst (downloadPart part evs)) = Start part
   \<and> End (fst (downloadPart part evs)) = End part
   \<and> (Downloaded part \<le> End part - Start part + 1 \<longrightarrow>
        all_fit (enter part) evs \<longrightarrow>
        Downloaded (fst (downloadPart part evs)) \<le> End part - Start part + 1)"
proof -
  define s0 where "s0 = enter part"
  have s0: "fst s0 = part" by (simp add: s0_def enter_def)
  have d: "downloadPart part es = run s0 es" for es
    by (simp add: downloadPart_def s0_def)
  have a: "Downloaded (fst (run s0 evs)) \<le> Downloaded (fst (run s0 (evs @ evs')))"
    unfolding run_append by (rule run_Downloaded_mono)
  have b: "Done (fst (run s0 evs)) \<longrightarrow> Done (fst (run s0 (evs @ evs')))"
    unfolding run_append by (simp add: run_Done_stays)
  have c: "Start (fst (run s0 evs)) = Start part" "End (fst (run s0 evs)) = End part"
    using run_frame [of s0 evs] by (simp_all add: s0)
  have e: "Downloaded part \<le> End part - Start part + 1 \<longrightarrow> all_fit s0 evs \<longrightarrow>
        Downloaded (fst (run s0 evs)) \<le> End part - Start part + 1"
    using run_fits_bound [of s0 evs] by (simp add: s0)
  show ?thesis
    unfolding d s0_def [symmetric] by (intro conjI a b c e)
qed

theorem downloadPart_monotone_witness:
  "Downloaded part0 \<le> End part0 - Start part0 + 1
   \<and> all_fit (enter part0) partial_body_206
   \<and> Downloaded (fst (downloadPart part0 partial_body_206)) = 25
   \<and> Done (fst (downloadPart part0 partial_body_206))
   \<and> Downloaded (fst (downloadPart part0 partial_body_206)) \<le> End part0 - Start part0 + 1
   \<and> Done (fst (downloadPart part0 (partial_body_206 @ [ctx_Done])))"
proof -
  have a: "Downloaded part0 \<le> End part0 - Start part0 + 1" by (simp add: part0_def)
  have b: "all_fit (enter part0) partial_body_206"
    by (simp add: enter_def part0_def partial_body_206_def Let_def)
  have c: "Downloaded (fst (downloadPart part0 partial_body_206)) = 25"
    by (simp add: downloadPart_def enter_def part0_def partial_body_206_def Let_def after_copy_def)
  have d: "Done (fst (downloadPart part0 partial_body_206))"
    by (simp add: downloadPart_def enter_def part0_def partial_body_206_def Let_def after_copy_def)
  from downloadPart_monotone [of part0 partial_body_206 "[ctx_Done]"] a b
  have e: "Downloaded (fst (downloadPart part0 partial_body_206)) \<le> End part0 - Start part0 + 1"
    by blast
  from downloadPart_monotone [of part0 partial_body_206 "[ctx_Done]"] d
  have f: "Done (fst (downloadPart part0 (partial_body_206 @ [ctx_Done])))"
    by blast
  show ?thesis by (intro conjI a b c d e f)
qed

section \<open>The progress file\<close>

text \<open>
  Claim C4, as stated: the plan is written to a temporary sibling and renamed over the
  target, so a reader never sees a half-written file.  \<open>SaveProgress\<close> calls
  \<open>os.WriteFile\<close> on the target itself: the file that held the older document is
  first truncated, and at that moment it is empty, neither the old document nor the
  new one.
\<close>

theorem SaveProgress_truncates_target:
  "SaveProgress marshal1 fs2 WriteCompletes ''download_state.json'' progress1 =
     (None, [fs2, fs2(''download_state.json'' \<mapsto> []),
             fs2(''download_state.json'' \<mapsto> marshal1 progress1)])
   \<and> (snd (SaveProgress marshal1 fs2 WriteCompletes ''download_state.json'' progress1) ! 1)
        ''download_state.json'' = Some []
   \<and> fs2 ''download_state.json'' \<noteq> Some []
   \<and> marshal1 progress1 \<noteq> []"
  by (simp add: SaveProgress_def os_WriteFile_def fs2_def marshal1_def)

text \<open>
  Claim C4, amended.  \<open>SaveProgress\<close> writes the JSON document into the target path in
  place with \<open>os.WriteFile\<close>: unless the open fails, the target is truncated to the empty
  file and then written; no other path of the file system changes at any moment, so
  there is no temporary file and no rename; when the write completes \<open>SaveProgress\<close>
  returns \<open>nil\<close> and the target holds the document.
\<close>

theorem SaveProgress_in_place:
  "(\<forall>s \<in> set (snd (SaveProgress marshal fs outcome filename progress)).
      \<forall>path. path \<noteq> filename \<longrightarrow> s path = fs path)
   \<and> hd (snd (SaveProgress marshal fs outcome filename progress)) = fs
   \<and> (outcome \<noteq> OpenFails \<longrightarrow>
        snd (SaveProgress marshal fs outcome filename progress) ! 1 = fs(filename \<mapsto> []))
   \<and> (outcome = WriteCompletes \<longrightarrow>
        fst (SaveProgress marshal fs outcome filename progress) = None
        \<and> last (snd (SaveProgress marshal fs outcome filename progress)) filename
            = Some (marshal progress))"
  by (cases outcome) (simp_all add: SaveProgress_def os_WriteFile_def)

theorem SaveProgress_in_place_witness:
  "WriteCompletes \<noteq> OpenFails
   \<and> fs2 \<in> set (snd (SaveProgress marshal1 fs2 WriteCompletes ''download_state.json'' progress1))
   \<and> snd (SaveProgress marshal1 fs2 WriteCompletes ''download_state.json'' progress1) ! 1
       = fs2(''download_state.json'' \<mapsto> [])
   \<and> fst (SaveProgress marshal1 fs2 WriteCompletes ''download_state.json'' progress1) = None
   \<and> last (snd (SaveProgress marshal1 fs2 WriteCompletes ''download_state.json'' progress1))
        ''download_state.json'' = Some (marshal1 progress1)
   \<and> last (snd (SaveProgress marshal1 fs2 WriteCompletes ''download_state.json'' progress1))
        ''a.bin'' = fs2 ''a.bin''"
proof -
  let ?S = "snd (SaveProgress marshal1 fs2 WriteCompletes ''download_state.json'' progress1)"
  note t = SaveProgress_in_place [of marshal1 fs2 WriteCompletes "''download_state.json''" progress1]
  have m: "fs2 \<in> set ?S" "last ?S \<in> set ?S"
    by (simp_all add: SaveProgress_def os_WriteFile_def)
  have a: "WriteCompletes \<noteq> OpenFails" by simp
  from t a have b: "?S ! 1 = fs2(''download_state.json'' \<mapsto> [])" by blast
  from t have c: "fst (SaveProgress marshal1 fs2 WriteCompletes ''download_state.json'' progress1) = None"
    by blast
  from t have d: "last ?S ''download_state.json'' = Some (marshal1 progress1)" by blast
  from t m(2) have e: "last ?S ''a.bin'' = fs2 ''a.bin''" by auto
  show ?thesis by (intro conjI a m(1) b c d e)
qed

end
